theory Spec2Isabelle
  imports Complex_Main "HOL-Library.AList"
begin

section \<open>Data model\<close>

text \<open>
  The module \<^verbatim>\<open>pynucastro/networks/rate_collection.py\<close> holds the classes
  \<^verbatim>\<open>Composition\<close> and \<^verbatim>\<open>RateCollection\<close>. The classes \<^verbatim>\<open>Nucleus\<close>, \<^verbatim>\<open>Rate\<close> and
  \<^verbatim>\<open>Library\<close> are imported from \<^verbatim>\<open>pynucastro.rates\<close>.

  \<^item> A nucleus is a value of a type \<open>'n\<close>. Python compares nuclei with \<^verbatim>\<open>==\<close>
    (HOL equality) and sorts them with \<^verbatim>\<open>sorted\<close>, which needs the total order that the
    Nucleus contract promises: the functions that sort ask for \<open>'n :: linorder\<close>.
    The attributes of a nucleus that the module reads (\<^verbatim>\<open>raw\<close>, \<^verbatim>\<open>A\<close>, \<^verbatim>\<open>N\<close>, \<^verbatim>\<open>Z\<close>,
    \<^verbatim>\<open>pretty\<close>) and the value \<^verbatim>\<open>Nucleus("p")\<close> are the fields of \<open>Nucleus\<close> below.
  \<^item> The methods that compute with numbers are modelled twice. Where a property does
    not depend on the rounding (which exception stops a call, the keys of a result, the
    weights of the edges of the graph), the numbers are real numbers and the arithmetic
    is exact: \<open>get_molar\<close>, \<open>evaluate_rates\<close> and \<open>plot\<close>. Where it does, the numbers are
    IEEE doubles and every operation is rounded: \<open>normalize\<close>, \<open>set_solar_like\<close>,
    \<open>Composition_get_molar\<close> and \<open>RateCollection_evaluate_rates\<close>; the last two also say
    which objects a call writes.
  \<^item> A \<^verbatim>\<open>dict\<close> is an association list with distinct keys, in insertion order;
    storing under a key is \<open>AList.update\<close>, reading is \<open>map_of\<close>.
  \<^item> A raised exception is \<open>Inl\<close> of a \<open>py_error\<close>.
\<close>

datatype py_error =
  IndexError | ValueError | KeyError | TypeError | ZeroDivisionError
  | AssertionError | SystemExit | OverflowError | AttributeError

record 'n Nucleus =
  nuc_raw :: "'n \<Rightarrow> string"
  nuc_A :: "'n \<Rightarrow> nat"
  nuc_N :: "'n \<Rightarrow> nat"
  nuc_Z :: "'n \<Rightarrow> nat"
  nuc_pretty :: "'n \<Rightarrow> string"
  nuc_p :: "'n"

text \<open>
  The chapter of a rate is an integer, or the string \<^verbatim>\<open>'t'\<close> of a tabulated rate; any
  other string is a chapter of unknown type.
\<close>

datatype chapter_value = Chapter_int int | Chapter_str string

record 'n Rate =
  reactants :: "'n list"
  products :: "'n list"
  rate_chapter :: chapter_value
  dens_exp :: int
  prefactor :: real
  fname :: string

record 'n Composition =
  X :: "('n \<times> real) list"

record 'n RateCollection =
  rates :: "'n Rate list"
  unique_nuclei :: "'n list"
  nuclei_consumed :: "('n \<times> 'n Rate list) list"
  nuclei_produced :: "('n \<times> 'n Rate list) list"
  tabular_rates :: "nat list"
  reaclib_rates :: "nat list"

section \<open>Construction of a RateCollection\<close>

text \<open>
  \<^verbatim>\<open>__init__\<close>, lines 145 to 181. The argument \<open>rs\<close> is the value of \<^verbatim>\<open>self.rates\<close>
  after line 143: the rates of the merged \<^verbatim>\<open>Library\<close> (the merge is done by the
  \<^verbatim>\<open>Library\<close> class).

  Lines 146 to 149: \<^verbatim>\<open>u = set(list(u) + list(t))\<close> with \<^verbatim>\<open>t = set(r.reactants + r.products)\<close>.
\<close>

fun unique_loop :: "'n Rate list \<Rightarrow> 'n set \<Rightarrow> 'n set" where
  "unique_loop [] u = u"
| "unique_loop (r # rs) u = unique_loop rs (u \<union> set (reactants r @ products r))"

text \<open>Lines 158 to 160: one list comprehension over all rates for each nucleus.\<close>

fun touch_loop ::
  "'n Rate list \<Rightarrow> 'n list \<Rightarrow> ('n \<times> 'n Rate list) list \<times> ('n \<times> 'n Rate list) list
    \<Rightarrow> ('n \<times> 'n Rate list) list \<times> ('n \<times> 'n Rate list) list" where
  "touch_loop rs [] (consumed, produced) = (consumed, produced)"
| "touch_loop rs (n # ns) (consumed, produced) =
     touch_loop rs ns
       (AList.update n (filter (\<lambda>r. n \<in> set (reactants r)) rs) consumed,
        AList.update n (filter (\<lambda>r. n \<in> set (products r)) rs) produced)"

text \<open>
  Lines 173 to 181: the positions of the tabulated and of the Reaclib rates;
  \<^verbatim>\<open>exit()\<close> on a chapter that is neither \<^verbatim>\<open>'t'\<close> nor an integer.
\<close>

definition tabular :: "'n Rate \<Rightarrow> bool" where
  "tabular r = (rate_chapter r = Chapter_str ''t'')"

fun classify_loop ::
  "'n Rate list \<Rightarrow> nat \<Rightarrow> nat list \<times> nat list \<Rightarrow> py_error + nat list \<times> nat list" where
  "classify_loop [] n (tab, rea) = Inr (tab, rea)"
| "classify_loop (r # rs) n (tab, rea) =
     (if tabular r then classify_loop rs (Suc n) (tab @ [n], rea)
      else case rate_chapter r of
             Chapter_int c \<Rightarrow> classify_loop rs (Suc n) (tab, rea @ [n])
           | Chapter_str s \<Rightarrow> Inl SystemExit)"

text \<open>
  Line 151 is \<^verbatim>\<open>sorted(u)\<close> on a set, lines 168 and 169 are \<^verbatim>\<open>sorted\<close> with the key
  \<^verbatim>\<open>r.chapter == 't'\<close>: a stable sort on a Boolean key, \<open>False\<close> before \<open>True\<close>.
\<close>

definition RateCollection_init :: "('n::linorder) Rate list \<Rightarrow> py_error + 'n RateCollection" where
  "RateCollection_init rs =
     (let u = unique_loop rs {};
          un = sorted_list_of_set u;
          (consumed, produced) = touch_loop rs un ([], []);
          rs' = sort_key tabular rs
      in case classify_loop rs' 0 ([], []) of
           Inl e \<Rightarrow> Inl e
         | Inr (tab, rea) \<Rightarrow>
             Inr \<lparr>rates = rs', unique_nuclei = un,
                  nuclei_consumed = consumed, nuclei_produced = produced,
                  tabular_rates = tab, reaclib_rates = rea\<rparr>)"

section \<open>Composition\<close>

text \<open>
  \<^verbatim>\<open>Composition.__init__\<close>, lines 29 to 34, receives arbitrary Python objects: an
  object is a \<^verbatim>\<open>Nucleus\<close> or something else (a \<^verbatim>\<open>str\<close>, say). The argument is a
  sequence, since line 31 indexes it. \<^verbatim>\<open>nuclei[0]\<close> raises \<^verbatim>\<open>IndexError\<close> on an empty
  sequence; only this first element is tested with \<^verbatim>\<open>isinstance\<close>.
\<close>

datatype 'n py_object = Nucleus_obj 'n | Other_obj string

fun isinstance_Nucleus :: "'n py_object \<Rightarrow> bool" where
  "isinstance_Nucleus (Nucleus_obj n) = True"
| "isinstance_Nucleus (Other_obj s) = False"

definition Composition_init :: "'n py_object list \<Rightarrow> real \<Rightarrow> py_error + 'n py_object Composition" where
  "Composition_init nuclei small =
     (case nuclei of
        [] \<Rightarrow> Inl IndexError
      | k0 # ks \<Rightarrow>
          if \<not> isinstance_Nucleus k0 then Inl ValueError
          else Inr \<lparr>X = fold (\<lambda>k d. AList.update k small d) nuclei []\<rparr>)"

text \<open>
  \<^verbatim>\<open>get_molar\<close>, lines 70 to 73: a dict comprehension over \<^verbatim>\<open>self.X.items()\<close>, whose
  keys are distinct. The method returns its value and the composition as it leaves it.
\<close>

fun molar_frac :: "'n Nucleus \<Rightarrow> ('n \<times> real) list \<Rightarrow> py_error + ('n \<times> real) list" where
  "molar_frac nuc [] = Inr []"
| "molar_frac nuc ((k, v) # kvs) =
     (if nuc_A nuc k = 0 then Inl ZeroDivisionError
      else case molar_frac nuc kvs of
             Inl e \<Rightarrow> Inl e
           | Inr m \<Rightarrow> Inr ((k, v / real (nuc_A nuc k)) # m))"

definition get_molar ::
  "'n Nucleus \<Rightarrow> 'n Composition \<Rightarrow> (py_error + ('n \<times> real) list) \<times> 'n Composition" where
  "get_molar nuc c = (molar_frac nuc (X c), c)"

section \<open>Evaluation of the rates\<close>

text \<open>
  \<^verbatim>\<open>evaluate_rates\<close>, lines 202 to 213. \<^verbatim>\<open>Rate.eval\<close> is the parameter \<open>ev\<close>.
  \<^verbatim>\<open>rho**r.dens_exp\<close> raises \<^verbatim>\<open>ZeroDivisionError\<close> for zero to a negative power,
  \<^verbatim>\<open>ys[q]\<close> raises \<^verbatim>\<open>KeyError\<close> for a missing nucleus, and \<^verbatim>\<open>functools.reduce\<close> without
  an initial value raises \<^verbatim>\<open>TypeError\<close> on an empty list.
\<close>

definition py_pow :: "real \<Rightarrow> int \<Rightarrow> py_error + real" where
  "py_pow x e = (if x = 0 \<and> e < 0 then Inl ZeroDivisionError else Inr (x powi e))"

fun getitems :: "('k \<times> 'v) list \<Rightarrow> 'k list \<Rightarrow> py_error + 'v list" where
  "getitems d [] = Inr []"
| "getitems d (q # qs) =
     (case map_of d q of
        None \<Rightarrow> Inl KeyError
      | Some v \<Rightarrow> (case getitems d qs of Inl e \<Rightarrow> Inl e | Inr vs \<Rightarrow> Inr (v # vs)))"

fun reduce_mul :: "real list \<Rightarrow> py_error + real" where
  "reduce_mul [] = Inl TypeError"
| "reduce_mul (y # ys) = Inr (foldl (*) y ys)"

fun evaluate_loop ::
  "('n Rate \<Rightarrow> real \<Rightarrow> real) \<Rightarrow> real \<Rightarrow> real \<Rightarrow> ('n \<times> real) list \<Rightarrow> 'n Rate list
    \<Rightarrow> ('n Rate \<times> real) list \<Rightarrow> py_error + ('n Rate \<times> real) list" where
  "evaluate_loop ev rho T ys [] rvals = Inr rvals"
| "evaluate_loop ev rho T ys (r # rs) rvals =
     (case py_pow rho (dens_exp r) of
        Inl e \<Rightarrow> Inl e
      | Inr pw \<Rightarrow>
          (let val = prefactor r * pw * ev r T
           in (case getitems ys (reactants r) of
                 Inl e \<Rightarrow> Inl e
               | Inr fs \<Rightarrow>
                   (case reduce_mul fs of
                      Inl e \<Rightarrow> Inl e
                    | Inr yfac \<Rightarrow>
                        evaluate_loop ev rho T ys rs (AList.update r (yfac * val) rvals)))))"

text \<open>
  The method returns its value together with the collection and the composition as it
  leaves them.
\<close>

definition evaluate_rates ::
  "'n Nucleus \<Rightarrow> ('n Rate \<Rightarrow> real \<Rightarrow> real) \<Rightarrow> 'n RateCollection \<Rightarrow> real \<Rightarrow> real \<Rightarrow> 'n Composition
    \<Rightarrow> (py_error + ('n Rate \<times> real) list) \<times> 'n RateCollection \<times> 'n Composition" where
  "evaluate_rates nuc ev self rho T composition =
     (case get_molar nuc composition of
        (Inl e, composition') \<Rightarrow> (Inl e, self, composition')
      | (Inr ys, composition') \<Rightarrow>
          (evaluate_loop ev rho T ys (rates self) [], self, composition'))"

section \<open>Writing the network\<close>

text \<open>
  \<^verbatim>\<open>write_network\<close>, \<^verbatim>\<open>_distinguishable_rates\<close> and the stub \<^verbatim>\<open>_write_network\<close>, lines
  231 to 247. The stub prints one line and returns; its value here is what it prints.
\<close>

definition distinguishable_rates :: "'n RateCollection \<Rightarrow> bool" where
  "distinguishable_rates self =
     (let names = map fname (rates self)
      in card (set names) = length (rates self))"

definition write_network_stub :: "'n RateCollection \<Rightarrow> string list" where
  "write_network_stub self =
     [''To create network integration source code, use a class that implements a specific network type.'']"

definition write_network :: "'n RateCollection \<Rightarrow> py_error + string list" where
  "write_network self =
     (if \<not> distinguishable_rates self then Inl AssertionError
      else Inr (write_network_stub self))"

section \<open>The graph of the network\<close>










section \<open>Floating-point arithmetic\<close>

text \<open>
  A Python \<^verbatim>\<open>float\<close> is an IEEE 754 double: a finite number with 53 significant bits and
  an exponent between -1022 and 1023 (subnormal numbers below), an infinity, or a NaN. A
  finite double is written \<open>Fin x\<close> with its value \<open>x\<close>; the sign of zero is not modelled.

  The methods that compute with floats take the arithmetic as a parameter: \<open>fl_lit x\<close> is
  the float written as the decimal literal \<open>x\<close> (and the float \<open>x\<close> itself when \<open>x\<close> is
  one), \<open>fl_int n\<close> the conversion of a Python \<^verbatim>\<open>int\<close>, which Python applies to the \<^verbatim>\<open>int\<close>
  operand of a mixed operation, and the other fields are \<^verbatim>\<open>+\<close>, \<^verbatim>\<open>-\<close>, \<^verbatim>\<open>*\<close>, \<^verbatim>\<open>/\<close> and
  \<^verbatim>\<open>**\<close> with an \<^verbatim>\<open>int\<close> exponent. The operations that can raise return a sum.
\<close>

record 'f float_ops =
  fl_lit :: "real \<Rightarrow> 'f"
  fl_int :: "int \<Rightarrow> py_error + 'f"
  fl_add :: "'f \<Rightarrow> 'f \<Rightarrow> 'f"
  fl_sub :: "'f \<Rightarrow> 'f \<Rightarrow> 'f"
  fl_mul :: "'f \<Rightarrow> 'f \<Rightarrow> 'f"
  fl_div :: "'f \<Rightarrow> 'f \<Rightarrow> py_error + 'f"
  fl_pow :: "'f \<Rightarrow> int \<Rightarrow> py_error + 'f"

datatype double = Fin real | PInf | NInf | NaN

text \<open>
  Rounding to the nearest double, ties to the even significand. \<open>binade n x\<close> is the
  exponent \<open>e\<close> with \<open>2 ^ e \<le> x < 2 ^ (e + 1)\<close>, found in at most \<open>n\<close> steps. \<open>round_mag x\<close>
  rounds a positive \<open>x\<close> to a multiple of \<open>2 ^ (e - 52)\<close>, with \<open>e\<close> at least -1022, which
  gives the subnormal numbers and the underflow to zero; a result of \<open>2 ^ 1024\<close> or more
  is an overflow.
\<close>

fun binade :: "nat \<Rightarrow> real \<Rightarrow> int" where
  "binade 0 x = 0"
| "binade (Suc n) x =
     (if 2 \<le> x then binade n (x / 2) + 1 else if x < 1 then binade n (x * 2) - 1 else 0)"

definition round_half_even :: "real \<Rightarrow> int" where
  "round_half_even x =
     (let n = \<lfloor>x\<rfloor>; d = x - of_int n
      in if d < 1 / 2 then n else if 1 / 2 < d then n + 1 else if even n then n else n + 1)"

definition round_mag :: "real \<Rightarrow> real" where
  "round_mag x =
     (let e = max (binade 1100 x) (- 1022); q = 2 powi (e - 52)
      in of_int (round_half_even (x / q)) * q)"

definition round_to_double :: "real \<Rightarrow> double" where
  "round_to_double x =
     (if x = 0 then Fin 0
      else let r = round_mag \<bar>x\<bar>
           in if 2 ^ 1024 \<le> r then (if 0 < x then PInf else NInf) else Fin (sgn x * r))"

text \<open>A double is a fixed point of the rounding.\<close>

definition is_double :: "double \<Rightarrow> bool" where
  "is_double d = (case d of Fin r \<Rightarrow> round_to_double r = Fin r | _ \<Rightarrow> True)"

text \<open>
  The operations of Python on doubles. \<^verbatim>\<open>+\<close>, \<^verbatim>\<open>-\<close> and \<^verbatim>\<open>*\<close> never raise: they overflow to
  an infinity. \<^verbatim>\<open>/\<close> raises \<^verbatim>\<open>ZeroDivisionError\<close> for a zero divisor, whatever the dividend.
\<close>

fun d_neg :: "double \<Rightarrow> double" where
  "d_neg (Fin a) = Fin (- a)"
| "d_neg PInf = NInf"
| "d_neg NInf = PInf"
| "d_neg NaN = NaN"

fun d_add :: "double \<Rightarrow> double \<Rightarrow> double" where
  "d_add (Fin a) (Fin b) = round_to_double (a + b)"
| "d_add NaN y = NaN"
| "d_add x NaN = NaN"
| "d_add PInf NInf = NaN"
| "d_add NInf PInf = NaN"
| "d_add PInf y = PInf"
| "d_add x PInf = PInf"
| "d_add NInf y = NInf"
| "d_add x NInf = NInf"

definition d_sub :: "double \<Rightarrow> double \<Rightarrow> double" where
  "d_sub x y = d_add x (d_neg y)"

fun d_mul :: "double \<Rightarrow> double \<Rightarrow> double" where
  "d_mul (Fin a) (Fin b) = round_to_double (a * b)"
| "d_mul NaN y = NaN"
| "d_mul x NaN = NaN"
| "d_mul (Fin a) PInf = (if a = 0 then NaN else if 0 < a then PInf else NInf)"
| "d_mul (Fin a) NInf = (if a = 0 then NaN else if 0 < a then NInf else PInf)"
| "d_mul PInf (Fin b) = (if b = 0 then NaN else if 0 < b then PInf else NInf)"
| "d_mul NInf (Fin b) = (if b = 0 then NaN else if 0 < b then NInf else PInf)"
| "d_mul PInf PInf = PInf"
| "d_mul PInf NInf = NInf"
| "d_mul NInf PInf = NInf"
| "d_mul NInf NInf = PInf"

fun d_div :: "double \<Rightarrow> double \<Rightarrow> py_error + double" where
  "d_div x (Fin b) =
     (if b = 0 then Inl ZeroDivisionError
      else case x of
             Fin a \<Rightarrow> Inr (round_to_double (a / b))
           | PInf \<Rightarrow> Inr (if 0 < b then PInf else NInf)
           | NInf \<Rightarrow> Inr (if 0 < b then NInf else PInf)
           | NaN \<Rightarrow> Inr NaN)"
| "d_div (Fin a) y = Inr (case y of NaN \<Rightarrow> NaN | _ \<Rightarrow> Fin 0)"
| "d_div x y = Inr NaN"

text \<open>
  The conversion of an \<^verbatim>\<open>int\<close> raises \<^verbatim>\<open>OverflowError\<close> when the \<^verbatim>\<open>int\<close> is too large for a
  double. \<^verbatim>\<open>x ** n\<close> with an \<^verbatim>\<open>int\<close> \<open>n\<close> converts \<open>n\<close>, is 1.0 for \<open>n = 0\<close>, raises
  \<^verbatim>\<open>ZeroDivisionError\<close> for zero to a negative power and \<^verbatim>\<open>OverflowError\<close> when the power of
  a finite number overflows; the power function of the C library is taken to round
  correctly.
\<close>

definition d_int :: "int \<Rightarrow> py_error + double" where
  "d_int n = (case round_to_double (of_int n) of Fin r \<Rightarrow> Inr (Fin r) | _ \<Rightarrow> Inl OverflowError)"

definition d_pow :: "double \<Rightarrow> int \<Rightarrow> py_error + double" where
  "d_pow x n =
     (case round_to_double (of_int n) of
        Fin w \<Rightarrow>
          if w = 0 then Inr (Fin 1)
          else (case x of
                  NaN \<Rightarrow> Inr NaN
                | PInf \<Rightarrow> Inr (if 0 < w then PInf else Fin 0)
                | NInf \<Rightarrow> Inr (if 0 < w then (if odd \<lfloor>w\<rfloor> then NInf else PInf) else Fin 0)
                | Fin v \<Rightarrow>
                    if v = 0 then (if w < 0 then Inl ZeroDivisionError else Inr (Fin 0))
                    else (case round_to_double (v powi \<lfloor>w\<rfloor>) of
                            PInf \<Rightarrow> Inl OverflowError
                          | NInf \<Rightarrow> Inl OverflowError
                          | r \<Rightarrow> Inr r))
      | _ \<Rightarrow> Inl OverflowError)"

definition double_ops :: "double float_ops" where
  "double_ops = \<lparr>fl_lit = round_to_double, fl_int = d_int, fl_add = d_add, fl_sub = d_sub,
                 fl_mul = d_mul, fl_div = d_div, fl_pow = d_pow\<rparr>"

section \<open>Composition on floats\<close>

text \<open>
  The mass fractions \<^verbatim>\<open>self.X\<close> are a \<^verbatim>\<open>dict\<close> from nuclei to floats; the methods below
  take its items and return the items it holds after the call.

  \<^verbatim>\<open>normalize\<close>, lines 63 to 68. \<^verbatim>\<open>sum\<close> adds the values from left to right, starting from
  0 (the compensated summation of Python 3.12 and later is not modelled). The loop
  divides every value by the sum; a division that raises stops the method.
\<close>

definition py_sum :: "'f float_ops \<Rightarrow> 'f list \<Rightarrow> 'f" where
  "py_sum ops vs = foldl (fl_add ops) (fl_lit ops 0) vs"

fun divide_loop :: "'f float_ops \<Rightarrow> 'f \<Rightarrow> ('k \<times> 'f) list \<Rightarrow> py_error + ('k \<times> 'f) list" where
  "divide_loop ops s [] = Inr []"
| "divide_loop ops s ((k, v) # kvs) =
     (case fl_div ops v s of
        Inl e \<Rightarrow> Inl e
      | Inr q \<Rightarrow> (case divide_loop ops s kvs of Inl e \<Rightarrow> Inl e | Inr r \<Rightarrow> Inr ((k, q) # r)))"

definition normalize :: "'f float_ops \<Rightarrow> ('k \<times> 'f) list \<Rightarrow> py_error + ('k \<times> 'f) list" where
  "normalize ops Xd = (let X_sum = py_sum ops (map snd Xd) in divide_loop ops X_sum Xd)"

text \<open>
  \<^verbatim>\<open>set_solar_like\<close>, lines 36 to 49. \<open>solar_like_loop\<close> is the loop of lines 41 to 47, the
  state before \<^verbatim>\<open>self.normalize()\<close>; \<open>Zval\<close> is the argument \<^verbatim>\<open>Z\<close>, a float, and \<^verbatim>\<open>num-2\<close>
  is an \<^verbatim>\<open>int\<close>.
\<close>

definition solar_like_loop ::
  "'f float_ops \<Rightarrow> 'n Nucleus \<Rightarrow> 'f \<Rightarrow> 'f \<Rightarrow> ('n \<times> 'f) list \<Rightarrow> ('n \<times> 'f) list" where
  "solar_like_loop ops nuc Zval rem Xd =
     map (\<lambda>(k, v).
            if k = nuc_p nuc then (k, fl_lit ops 0.7)
            else if nuc_raw nuc k = ''he4'' then (k, fl_sub ops (fl_lit ops 0.3) Zval)
            else (k, rem)) Xd"

definition set_solar_like ::
  "'f float_ops \<Rightarrow> 'n Nucleus \<Rightarrow> ('n \<times> 'f) list \<Rightarrow> 'f \<Rightarrow> py_error + ('n \<times> 'f) list" where
  "set_solar_like ops nuc Xd Zval =
     (let num = int (length Xd)
      in case fl_int ops (num - 2) of
           Inl e \<Rightarrow> Inl e
         | Inr n2 \<Rightarrow>
             (case fl_div ops Zval n2 of
                Inl e \<Rightarrow> Inl e
              | Inr rem \<Rightarrow> normalize ops (solar_like_loop ops nuc Zval rem Xd)))"

section \<open>Evaluation in a store\<close>

text \<open>
  What a method changes is what it writes to the objects that exist. The store is the
  list of these objects and the address of an object is its position: a
  \<^verbatim>\<open>Composition\<close> holds the address of its \<^verbatim>\<open>dict\<close> \<^verbatim>\<open>X\<close>, a \<^verbatim>\<open>RateCollection\<close> holds its six
  attributes, and the dictionaries are those from nuclei to floats and from rates to
  floats. A new object is appended to the store, an assignment \<^verbatim>\<open>d[k] = v\<close> replaces the
  dictionary at the address of \<open>d\<close>, and a method returns its value, an address, together
  with the store as it leaves it. Reading an attribute or an item of an object of another
  kind raises.
\<close>

datatype ('n, 'f) py_value =
    Composition_val nat
  | RateCollection_val "'n RateCollection"
  | Dict_nuclei "('n \<times> 'f) list"
  | Dict_rates "('n Rate \<times> 'f) list"

type_synonym ('n, 'f) store = "('n, 'f) py_value list"

definition deref :: "('n, 'f) store \<Rightarrow> nat \<Rightarrow> ('n, 'f) py_value option" where
  "deref st a = (if a < length st then Some (st ! a) else None)"

text \<open>
  \<^verbatim>\<open>get_molar\<close>, lines 70 to 73. The comprehension makes a new \<^verbatim>\<open>dict\<close> \<open>molar_frac\<close> and
  stores \<^verbatim>\<open>v/k.A\<close> in it for every item of \<^verbatim>\<open>self.X\<close>; \<^verbatim>\<open>k.A\<close> is an \<^verbatim>\<open>int\<close>.
\<close>

fun molar_loop ::
  "'f float_ops \<Rightarrow> 'n Nucleus \<Rightarrow> nat \<Rightarrow> ('n \<times> 'f) list \<Rightarrow> ('n, 'f) store
    \<Rightarrow> py_error option \<times> ('n, 'f) store" where
  "molar_loop ops nuc m [] st = (None, st)"
| "molar_loop ops nuc m ((k, v) # kvs) st =
     (case fl_int ops (int (nuc_A nuc k)) of
        Inl e \<Rightarrow> (Some e, st)
      | Inr A \<Rightarrow>
          (case fl_div ops v A of
             Inl e \<Rightarrow> (Some e, st)
           | Inr y \<Rightarrow>
               (case deref st m of
                  Some (Dict_nuclei d) \<Rightarrow>
                    molar_loop ops nuc m kvs (st[m := Dict_nuclei (AList.update k y d)])
                | _ \<Rightarrow> (Some TypeError, st))))"

definition Composition_get_molar ::
  "'f float_ops \<Rightarrow> 'n Nucleus \<Rightarrow> ('n, 'f) store \<Rightarrow> nat \<Rightarrow> (py_error + nat) \<times> ('n, 'f) store" where
  "Composition_get_molar ops nuc st self =
     (case deref st self of
        Some (Composition_val x) \<Rightarrow>
          (case deref st x of
             Some (Dict_nuclei items) \<Rightarrow>
               (let molar_frac = length st;
                    st1 = st @ [Dict_nuclei []]
                in case molar_loop ops nuc molar_frac items st1 of
                     (Some e, st2) \<Rightarrow> (Inl e, st2)
                   | (None, st2) \<Rightarrow> (Inr molar_frac, st2))
           | _ \<Rightarrow> (Inl AttributeError, st))
      | _ \<Rightarrow> (Inl AttributeError, st))"

text \<open>
  \<^verbatim>\<open>evaluate_rates\<close>, lines 202 to 213: \<^verbatim>\<open>rvals = {}\<close> makes a new \<^verbatim>\<open>dict\<close>, \<^verbatim>\<open>ys\<close> is the
  \<^verbatim>\<open>dict\<close> that \<^verbatim>\<open>get_molar\<close> returns, and the loop stores \<^verbatim>\<open>yfac * val\<close> in \<^verbatim>\<open>rvals\<close> for every
  rate of \<^verbatim>\<open>self.rates\<close>. \<^verbatim>\<open>Rate.eval\<close> is the parameter \<open>ev\<close>, a function of the rate and
  the temperature. \<^verbatim>\<open>functools.reduce\<close> multiplies from left to right.
\<close>

fun reduce_fl_mul :: "'f float_ops \<Rightarrow> 'f list \<Rightarrow> py_error + 'f" where
  "reduce_fl_mul ops [] = Inl TypeError"
| "reduce_fl_mul ops (y # ys) = Inr (foldl (fl_mul ops) y ys)"

fun rates_loop ::
  "'f float_ops \<Rightarrow> ('n Rate \<Rightarrow> 'f \<Rightarrow> 'f) \<Rightarrow> 'f \<Rightarrow> 'f \<Rightarrow> nat \<Rightarrow> nat \<Rightarrow> 'n Rate list
    \<Rightarrow> ('n, 'f) store \<Rightarrow> py_error option \<times> ('n, 'f) store" where
  "rates_loop ops ev rho T rvals ys [] st = (None, st)"
| "rates_loop ops ev rho T rvals ys (r # rs) st =
     (case fl_pow ops rho (dens_exp r) of
        Inl e \<Rightarrow> (Some e, st)
      | Inr pw \<Rightarrow>
          (let val = fl_mul ops (fl_mul ops (fl_lit ops (prefactor r)) pw) (ev r T)
           in (case deref st ys of
                 Some (Dict_nuclei d) \<Rightarrow>
                   (case getitems d (reactants r) of
                      Inl e \<Rightarrow> (Some e, st)
                    | Inr fs \<Rightarrow>
                        (case reduce_fl_mul ops fs of
                           Inl e \<Rightarrow> (Some e, st)
                         | Inr yfac \<Rightarrow>
                             (case deref st rvals of
                                Some (Dict_rates rv) \<Rightarrow>
                                  rates_loop ops ev rho T rvals ys rs
                                    (st[rvals := Dict_rates (AList.update r (fl_mul ops yfac val) rv)])
                              | _ \<Rightarrow> (Some TypeError, st))))
               | _ \<Rightarrow> (Some TypeError, st))))"

definition RateCollection_evaluate_rates ::
  "'f float_ops \<Rightarrow> 'n Nucleus \<Rightarrow> ('n Rate \<Rightarrow> 'f \<Rightarrow> 'f) \<Rightarrow> ('n, 'f) store \<Rightarrow> nat \<Rightarrow> 'f \<Rightarrow> 'f
    \<Rightarrow> nat \<Rightarrow> (py_error + nat) \<times> ('n, 'f) store" where
  "RateCollection_evaluate_rates ops nuc ev st self rho T composition =
     (let rvals = length st;
          st1 = st @ [Dict_rates []]
      in case Composition_get_molar ops nuc st1 composition of
           (Inl e, st2) \<Rightarrow> (Inl e, st2)
         | (Inr ys, st2) \<Rightarrow>
             (case deref st2 self of
                Some (RateCollection_val rc) \<Rightarrow>
                  (case rates_loop ops ev rho T rvals ys (rates rc) st2 of
                     (Some e, st3) \<Rightarrow> (Inl e, st3)
                   | (None, st3) \<Rightarrow> (Inr rvals, st3))
              | _ \<Rightarrow> (Inl AttributeError, st2)))"

section \<open>A small network\<close>

text \<open>
  Nuclei named by their mass number: the proton 1, the deuteron 2, helium-4, carbon-12
  and oxygen-16, with the rates p + p \<open>\<rightarrow>\<close> d, c12 + he4 \<open>\<rightarrow>\<close> o16, and a tabulated rate
  o16 \<open>\<rightarrow>\<close> c12 + he4 that comes first in the input.
\<close>

definition ex_raw :: "nat \<Rightarrow> string" where
  "ex_raw n = (if n = 1 then ''p'' else if n = 2 then ''d'' else if n = 4 then ''he4''
               else if n = 12 then ''c12'' else ''o16'')"

definition ex_nuc :: "nat Nucleus" where
  "ex_nuc = \<lparr>nuc_raw = ex_raw, nuc_A = (\<lambda>n. n), nuc_N = (\<lambda>n. n div 2),
            nuc_Z = (\<lambda>n. n - n div 2), nuc_pretty = ex_raw, nuc_p = 1\<rparr>"

definition ex_pp :: "nat Rate" where
  "ex_pp = \<lparr>reactants = [1, 1], products = [2], rate_chapter = Chapter_int 1,
            dens_exp = 2, prefactor = 1, fname = ''p_p__d''\<rparr>"

definition ex_cag :: "nat Rate" where
  "ex_cag = \<lparr>reactants = [12, 4], products = [16], rate_chapter = Chapter_int 4,
             dens_exp = 1, prefactor = 1, fname = ''c12_he4__o16''\<rparr>"

definition ex_tab :: "nat Rate" where
  "ex_tab = \<lparr>reactants = [16], products = [12, 4], rate_chapter = Chapter_str ''t'',
             dens_exp = 0, prefactor = 1, fname = ''o16__c12_he4''\<rparr>"

definition ex_rates :: "nat Rate list" where
  "ex_rates = [ex_tab, ex_pp, ex_cag]"

definition ex_rc :: "nat RateCollection" where
  "ex_rc = \<lparr>rates = [ex_pp, ex_cag, ex_tab], unique_nuclei = [1, 2, 4, 12, 16],
     nuclei_consumed = [(1, [ex_pp]), (2, []), (4, [ex_cag]), (12, [ex_cag]), (16, [ex_tab])],
     nuclei_produced = [(1, []), (2, [ex_pp]), (4, [ex_tab]), (12, [ex_tab]), (16, [ex_cag])],
     tabular_rates = [2], reaclib_rates = [0, 1]\<rparr>"

text \<open>
  Every rate evaluates to 3 at every temperature. In \<open>ex_comp\<close> the proton has mass
  fraction 0.5 and mass number 1; \<open>ex_comp0\<close> has no oxygen-16.
\<close>

definition ex_ev :: "nat Rate \<Rightarrow> real \<Rightarrow> real" where
  "ex_ev r T = 3"

definition ex_comp :: "nat Composition" where
  "ex_comp = \<lparr>X = [(1, 0.5), (4, 0.2), (12, 0.2), (16, 0.1)]\<rparr>"


text \<open>Two rates with one \<^verbatim>\<open>fname\<close>.\<close>

definition ex_dup_rates :: "nat Rate list" where
  "ex_dup_rates = [ex_pp, ex_cag\<lparr>fname := ''p_p__d''\<rparr>]"

definition ex_dup_rc :: "nat RateCollection" where
  "ex_dup_rc = \<lparr>rates = ex_dup_rates, unique_nuclei = [1, 2, 4, 12, 16],
     nuclei_consumed = [(1, [ex_pp]), (2, []), (4, [ex_cag\<lparr>fname := ''p_p__d''\<rparr>]),
                        (12, [ex_cag\<lparr>fname := ''p_p__d''\<rparr>]), (16, [])],
     nuclei_produced = [(1, []), (2, [ex_pp]), (4, []), (12, []),
                        (16, [ex_cag\<lparr>fname := ''p_p__d''\<rparr>])],
     tabular_rates = [], reaclib_rates = [0, 1]\<rparr>"

text \<open>
  A rate without reactants, a rate with a negative density exponent and a rate with the
  density exponent 0, each alone in a collection.
\<close>

definition cx_noreactant :: "nat Rate" where
  "cx_noreactant = \<lparr>reactants = [], products = [2], rate_chapter = Chapter_int 1,
                     dens_exp = 0, prefactor = 1, fname = ''__d''\<rparr>"

definition cx_noreactant_rc :: "nat RateCollection" where
  "cx_noreactant_rc = \<lparr>rates = [cx_noreactant], unique_nuclei = [2],
     nuclei_consumed = [(2, [])], nuclei_produced = [(2, [cx_noreactant])],
     tabular_rates = [], reaclib_rates = [0]\<rparr>"

definition cx_negexp :: "nat Rate" where
  "cx_negexp = \<lparr>reactants = [1], products = [2], rate_chapter = Chapter_int 1,
                 dens_exp = - 1, prefactor = 1, fname = ''p__d''\<rparr>"

definition cx_negexp_rc :: "nat RateCollection" where
  "cx_negexp_rc = \<lparr>rates = [cx_negexp], unique_nuclei = [1, 2],
     nuclei_consumed = [(1, [cx_negexp]), (2, [])],
     nuclei_produced = [(1, []), (2, [cx_negexp])],
     tabular_rates = [], reaclib_rates = [0]\<rparr>"

definition cx_decay :: "nat Rate" where
  "cx_decay = \<lparr>reactants = [1], products = [2], rate_chapter = Chapter_int 1,
                dens_exp = 0, prefactor = 1, fname = ''p__d''\<rparr>"

definition cx_decay_rc :: "nat RateCollection" where
  "cx_decay_rc = \<lparr>rates = [cx_decay], unique_nuclei = [1, 2],
     nuclei_consumed = [(1, [cx_decay]), (2, [])],
     nuclei_produced = [(1, []), (2, [cx_decay])],
     tabular_rates = [], reaclib_rates = [0]\<rparr>"

subsection \<open>Examples on doubles\<close>

text \<open>
  Mass fractions 1 and 3 and their quotients by 4; mass fractions 8, 9, 9, 9, what
  \<open>normalize\<close> makes of them (0.22857142857142856 and 0.2571428571428571), and what a second
  \<open>normalize\<close> makes of that (0.2285714285714286 and 0.2571428571428572).
\<close>

definition ex_unnorm :: "(nat \<times> double) list" where
  "ex_unnorm = [(1, Fin 1), (4, Fin 3)]"

definition ex_quarters :: "(nat \<times> double) list" where
  "ex_quarters = [(1, Fin (1 / 4)), (4, Fin (3 / 4))]"

definition ex_8999 :: "(nat \<times> double) list" where
  "ex_8999 = [(1, Fin 8), (4, Fin 9), (12, Fin 9), (16, Fin 9)]"

definition ex_8999_once :: "(nat \<times> double) list" where
  "ex_8999_once = [(1, Fin (8235153604334621 / 2 ^ 55)), (4, Fin (289517118902389 / 2 ^ 50)),
                   (12, Fin (289517118902389 / 2 ^ 50)), (16, Fin (289517118902389 / 2 ^ 50))]"

definition ex_8999_twice :: "(nat \<times> double) list" where
  "ex_8999_twice = [(1, Fin (4117576802167311 / 2 ^ 54)), (4, Fin (4632273902438225 / 2 ^ 54)),
                    (12, Fin (4632273902438225 / 2 ^ 54)), (16, Fin (4632273902438225 / 2 ^ 54))]"

text \<open>
  A new composition of four nuclei, every mass fraction the double \<^verbatim>\<open>1.e-16\<close>, and its
  mass fractions after \<^verbatim>\<open>set_solar_like()\<close>: the doubles 0.01, 0.7, 0.01 and
  0.27999999999999997.
\<close>

definition ex_small :: "(nat \<times> double) list" where
  "ex_small = [(12, Fin (2028240960365167 / 2 ^ 104)), (1, Fin (2028240960365167 / 2 ^ 104)),
               (16, Fin (2028240960365167 / 2 ^ 104)), (4, Fin (2028240960365167 / 2 ^ 104))]"

definition ex_solar :: "(nat \<times> double) list" where
  "ex_solar = [(12, Fin (5764607523034235 / 2 ^ 59)), (1, Fin (3152519739159347 / 2 ^ 52)),
               (16, Fin (5764607523034235 / 2 ^ 59)), (4, Fin (5044031582654955 / 2 ^ 54))]"

text \<open>
  A store with the collection \<open>ex_rc\<close> at address 0, a composition at address 1 and its
  mass fractions at address 2; the molar fractions of this composition; the values of the
  rates at the density 10 when every rate evaluates to 3 at every temperature. In
  \<open>cx_items\<close> the proton has the mass fraction 0.1, and \<open>cx_eval\<close> evaluates every rate to
  0.1 (the double \<open>3602879701896397 / 2 ^ 55\<close>); \<open>cx_rho\<close> is a large density.
\<close>

definition ex_eval :: "nat Rate \<Rightarrow> double \<Rightarrow> double" where
  "ex_eval r T = Fin 3"

definition cx_eval :: "nat Rate \<Rightarrow> double \<Rightarrow> double" where
  "cx_eval r T = Fin (3602879701896397 / 2 ^ 55)"

definition ex_items :: "(nat \<times> double) list" where
  "ex_items = [(1, Fin (1 / 2)), (4, Fin (1 / 4)), (12, Fin (3 / 16)), (16, Fin (1 / 16))]"

definition ex_molar :: "(nat \<times> double) list" where
  "ex_molar = [(1, Fin (1 / 2)), (4, Fin (1 / 16)), (12, Fin (1 / 64)), (16, Fin (1 / 256))]"

definition ex_rvals :: "(nat Rate \<times> double) list" where
  "ex_rvals = [(ex_pp, Fin 75), (ex_cag, Fin (15 / 512)), (ex_tab, Fin (3 / 256))]"

definition ex_store :: "(nat, double) store" where
  "ex_store = [RateCollection_val ex_rc, Composition_val 2, Dict_nuclei ex_items]"

definition cx_items :: "(nat \<times> double) list" where
  "cx_items = [(1, Fin (3602879701896397 / 2 ^ 55))]"

definition cx_rho :: double where
  "cx_rho = Fin (2 ^ 700)"

section \<open>Properties of the construction\<close>

lemma unique_loop_set:
  "unique_loop rs u = u \<union> (\<Union>r\<in>set rs. set (reactants r) \<union> set (products r))"
  by (induction rs arbitrary: u) auto

lemma finite_unique_loop: "finite u \<Longrightarrow> finite (unique_loop rs u)"
  by (simp add: unique_loop_set)

lemma touch_loop_consumed:
  "map_of (fst (touch_loop rs ns (c, p))) n =
     (if n \<in> set ns then Some (filter (\<lambda>r. n \<in> set (reactants r)) rs) else map_of c n)"
  by (induction ns arbitrary: c p) (auto simp: update_conv')

lemma touch_loop_produced:
  "map_of (snd (touch_loop rs ns (c, p))) n =
     (if n \<in> set ns then Some (filter (\<lambda>r. n \<in> set (products r)) rs) else map_of p n)"
  by (induction ns arbitrary: c p) (auto simp: update_conv')

lemma insort_key_bool_False:
  "\<not> f x \<Longrightarrow> insort_key f x ys = x # ys"
  by (cases ys) auto

lemma insort_key_bool_skip:
  "f x \<Longrightarrow> \<forall>a\<in>set as. \<not> f a \<Longrightarrow> insort_key f x (as @ bs) = as @ insort_key f x bs"
  by (induction as) auto

lemma insort_key_bool_head:
  "f x \<Longrightarrow> \<forall>b\<in>set bs. f b \<Longrightarrow> insort_key f x bs = x # bs"
  by (cases bs) auto

lemma insort_key_bool_True:
  "f x \<Longrightarrow> insort_key f x (filter (\<lambda>y. \<not> f y) ys @ filter f ys)
     = filter (\<lambda>y. \<not> f y) ys @ x # filter f ys"
  by (simp add: insort_key_bool_skip insort_key_bool_head)

lemma sort_key_bool:
  "sort_key f xs = filter (\<lambda>x. \<not> f x) xs @ filter f xs"
proof (induction xs)
  case Nil
  then show ?case by simp
next
  case (Cons x xs)
  then show ?case
    by (cases "f x") (simp_all add: insort_key_bool_False insort_key_bool_True)
qed

lemma RateCollection_init_fields:
  assumes "RateCollection_init rs = Inr rc"
  shows "rates rc = sort_key tabular rs"
    and "unique_nuclei rc = sorted_list_of_set (unique_loop rs {})"
    and "nuclei_consumed rc = fst (touch_loop rs (unique_nuclei rc) ([], []))"
    and "nuclei_produced rc = snd (touch_loop rs (unique_nuclei rc) ([], []))"
  using assms
  by (auto simp: RateCollection_init_def Let_def split: prod.splits sum.splits)

lemma ex_init: "RateCollection_init ex_rates = Inr ex_rc"
  by code_simp

text \<open>
  C2. In a constructed collection, \<open>unique_nuclei\<close> is the sorted list of the set of all
  reactants and products of the held rates: it holds exactly these nuclei, each once, in
  ascending order.
\<close>

theorem unique_nuclei_sorted_union:
  assumes "RateCollection_init rs = Inr rc"
  shows "unique_nuclei rc
           = sorted_list_of_set (\<Union>r\<in>set (rates rc). set (reactants r) \<union> set (products r))
         \<and> set (unique_nuclei rc) = (\<Union>r\<in>set (rates rc). set (reactants r) \<union> set (products r))
         \<and> distinct (unique_nuclei rc) \<and> sorted (unique_nuclei rc)"
proof -
  have r: "set (rates rc) = set rs"
    using RateCollection_init_fields(1)[OF assms] by simp
  have u: "unique_nuclei rc = sorted_list_of_set (\<Union>r\<in>set rs. set (reactants r) \<union> set (products r))"
    using RateCollection_init_fields(2)[OF assms] by (simp add: unique_loop_set)
  have "finite (\<Union>r\<in>set rs. set (reactants r) \<union> set (products r))" by simp
  then show ?thesis unfolding r u by simp
qed

theorem unique_nuclei_sorted_union_witness:
  "RateCollection_init ex_rates = Inr ex_rc
   \<and> unique_nuclei ex_rc
       = sorted_list_of_set (\<Union>r\<in>set (rates ex_rc). set (reactants r) \<union> set (products r))
   \<and> set (unique_nuclei ex_rc) = (\<Union>r\<in>set (rates ex_rc). set (reactants r) \<union> set (products r))
   \<and> distinct (unique_nuclei ex_rc) \<and> sorted (unique_nuclei ex_rc)"
  using ex_init unique_nuclei_sorted_union[OF ex_init] by (rule conjI)

text \<open>
  C3. In a constructed collection, for a nucleus \<open>n\<close> of \<open>unique_nuclei\<close> and a held rate
  \<open>r\<close>: \<open>r\<close> is in \<open>nuclei_consumed[n]\<close> exactly when \<open>n\<close> occurs among the reactants of
  \<open>r\<close>, and in \<open>nuclei_produced[n]\<close> exactly when \<open>n\<close> occurs among its products.
\<close>

theorem nuclei_index_complete:
  assumes "RateCollection_init rs = Inr rc"
    and "n \<in> set (unique_nuclei rc)" and "r \<in> set (rates rc)"
  shows "\<exists>cs ps. map_of (nuclei_consumed rc) n = Some cs \<and> map_of (nuclei_produced rc) n = Some ps
           \<and> (r \<in> set cs \<longleftrightarrow> n \<in> set (reactants r))
           \<and> (r \<in> set ps \<longleftrightarrow> n \<in> set (products r))"
proof -
  have r: "r \<in> set rs"
    using RateCollection_init_fields(1)[OF assms(1)] assms(3) by simp
  show ?thesis
    using assms(2) r
    by (simp add: RateCollection_init_fields(3,4)[OF assms(1)] touch_loop_consumed touch_loop_produced)
qed

theorem nuclei_index_complete_witness:
  "RateCollection_init ex_rates = Inr ex_rc
   \<and> 4 \<in> set (unique_nuclei ex_rc) \<and> ex_cag \<in> set (rates ex_rc)
   \<and> (\<exists>cs ps. map_of (nuclei_consumed ex_rc) 4 = Some cs \<and> map_of (nuclei_produced ex_rc) 4 = Some ps
         \<and> (ex_cag \<in> set cs \<longleftrightarrow> 4 \<in> set (reactants ex_cag))
         \<and> (ex_cag \<in> set ps \<longleftrightarrow> 4 \<in> set (products ex_cag)))"
proof -
  have n: "4 \<in> set (unique_nuclei ex_rc)" and r: "ex_cag \<in> set (rates ex_rc)"
    by (simp_all add: ex_rc_def)
  show ?thesis
    using ex_init n r nuclei_index_complete[OF ex_init n r] by blast
qed

text \<open>
  C4. In a constructed collection the stored rates are the rates of the input whose chapter
  is not \<^verbatim>\<open>'t'\<close>, in their input order, followed by the rates whose chapter is \<^verbatim>\<open>'t'\<close>, in
  their input order; so every rate that is not tabulated stands before every tabulated one.
\<close>

theorem rates_stable_partition:
  assumes "RateCollection_init rs = Inr rc"
  shows "rates rc = filter (\<lambda>r. rate_chapter r \<noteq> Chapter_str ''t'') rs
                     @ filter (\<lambda>r. rate_chapter r = Chapter_str ''t'') rs
         \<and> (\<forall>i j. i < length (rates rc) \<and> j < length (rates rc)
                \<and> rate_chapter (rates rc ! i) \<noteq> Chapter_str ''t''
                \<and> rate_chapter (rates rc ! j) = Chapter_str ''t'' \<longrightarrow> i < j)"
proof -
  let ?as = "filter (\<lambda>r. rate_chapter r \<noteq> Chapter_str ''t'') rs"
  let ?bs = "filter (\<lambda>r. rate_chapter r = Chapter_str ''t'') rs"
  have eq: "rates rc = ?as @ ?bs"
    using RateCollection_init_fields(1)[OF assms]
    by (simp add: sort_key_bool tabular_def[abs_def])
  have "i < j" if ij: "i < length (rates rc)" "j < length (rates rc)"
      and ni: "rate_chapter (rates rc ! i) \<noteq> Chapter_str ''t''"
      and tj: "rate_chapter (rates rc ! j) = Chapter_str ''t''" for i j
  proof -
    have "i < length ?as"
    proof (rule ccontr)
      assume "\<not> i < length ?as"
      then have "rates rc ! i = ?bs ! (i - length ?as)" "i - length ?as < length ?bs"
        using ij(1) by (simp_all add: eq nth_append)
      then have "rates rc ! i \<in> set ?bs" by (metis nth_mem)
      with ni show False by simp
    qed
    moreover have "\<not> j < length ?as"
    proof
      assume "j < length ?as"
      then have "rates rc ! j = ?as ! j" and "?as ! j \<in> set ?as"
        using nth_mem[of j ?as] by (simp add: eq nth_append, blast)
      with tj show False by simp
    qed
    ultimately show ?thesis by simp
  qed
  with eq show ?thesis by blast
qed

theorem rates_stable_partition_witness:
  "RateCollection_init ex_rates = Inr ex_rc
   \<and> rates ex_rc = [ex_pp, ex_cag, ex_tab]
   \<and> rates ex_rc = filter (\<lambda>r. rate_chapter r \<noteq> Chapter_str ''t'') ex_rates
                     @ filter (\<lambda>r. rate_chapter r = Chapter_str ''t'') ex_rates
   \<and> 1 < length (rates ex_rc) \<and> 2 < length (rates ex_rc)
   \<and> rate_chapter (rates ex_rc ! 1) \<noteq> Chapter_str ''t''
   \<and> rate_chapter (rates ex_rc ! 2) = Chapter_str ''t'' \<and> (1::nat) < 2"
proof -
  have "rates ex_rc = [ex_pp, ex_cag, ex_tab]"
    by (simp add: ex_rc_def)
  moreover have "1 < length (rates ex_rc)" "2 < length (rates ex_rc)"
    "rate_chapter (rates ex_rc ! 1) \<noteq> Chapter_str ''t''"
    "rate_chapter (rates ex_rc ! 2) = Chapter_str ''t''"
    by (simp_all add: ex_rc_def ex_cag_def ex_tab_def)
  ultimately show ?thesis
    using ex_init rates_stable_partition[OF ex_init] by simp
qed

section \<open>Properties of the evaluation\<close>



section \<open>Rates that share a name\<close>

lemma ex_dup_init: "RateCollection_init ex_dup_rates = Inr ex_dup_rc"
  by code_simp

lemma tabular_fname: "tabular (r\<lparr>fname := s\<rparr>) = tabular r"
  by (simp add: tabular_def)

lemma classify_loop_fname:
  "classify_loop (map (\<lambda>r. r\<lparr>fname := g r\<rparr>) rs) n acc = classify_loop rs n acc"
proof (induction rs arbitrary: n acc)
  case Nil
  then show ?case by (cases acc) simp
next
  case (Cons r rs)
  then show ?case by (cases acc) (simp add: tabular_fname split: chapter_value.splits)
qed

lemma sort_key_tabular_fname:
  "sort_key tabular (map (\<lambda>r. r\<lparr>fname := g r\<rparr>) rs)
     = map (\<lambda>r. r\<lparr>fname := g r\<rparr>) (sort_key tabular rs)"
  by (simp add: sort_key_bool filter_map comp_def tabular_fname)

lemma RateCollection_init_isl:
  "isl (RateCollection_init rs) = isl (classify_loop (sort_key tabular rs) 0 ([], []))"
  by (simp add: RateCollection_init_def Let_def split: prod.splits sum.splits)

lemma evaluate_loop_isl_fname:
  "isl (evaluate_loop ev' rho T ys (map (\<lambda>r. r\<lparr>fname := g r\<rparr>) rs) acc')
     = isl (evaluate_loop ev rho T ys rs acc)"
  by (induction rs arbitrary: acc acc') (auto simp: Let_def split: sum.splits)

lemma distinguishable_rates_distinct:
  "distinguishable_rates rc \<longleftrightarrow> distinct (map fname (rates rc))"
  unfolding distinguishable_rates_def Let_def
  using distinct_card[of "map fname (rates rc)"] card_distinct[of "map fname (rates rc)"]
  by auto

text \<open>
  C5. Giving the rates any other names \<open>g r\<close>, equal ones too, changes neither whether the
  construction of the collection raises nor whether \<open>evaluate_rates\<close> raises. \<open>write_network\<close>
  raises, and then \<^verbatim>\<open>AssertionError\<close>, exactly when the names of the held rates are not
  pairwise distinct; when they are distinct it returns what the network writer returns.
\<close>

theorem fname_collisions_stop_only_write_network:
  "(isl (RateCollection_init (map (\<lambda>r. r\<lparr>fname := g r\<rparr>) rs)) \<longleftrightarrow> isl (RateCollection_init rs))
   \<and> (isl (fst (evaluate_rates nuc ev' (rc\<lparr>rates := map (\<lambda>r. r\<lparr>fname := g r\<rparr>) (rates rc)\<rparr>) rho T c))
        \<longleftrightarrow> isl (fst (evaluate_rates nuc ev rc rho T c)))
   \<and> (isl (write_network rc) \<longleftrightarrow> \<not> distinct (map fname (rates rc)))
   \<and> (write_network rc = Inl AssertionError \<longleftrightarrow> \<not> distinct (map fname (rates rc)))
   \<and> (distinct (map fname (rates rc)) \<longrightarrow> write_network rc = Inr (write_network_stub rc))"
proof -
  have 1: "isl (RateCollection_init (map (\<lambda>r. r\<lparr>fname := g r\<rparr>) rs)) \<longleftrightarrow> isl (RateCollection_init rs)"
    by (simp add: RateCollection_init_isl sort_key_tabular_fname classify_loop_fname)
  have 2: "isl (fst (evaluate_rates nuc ev' (rc\<lparr>rates := map (\<lambda>r. r\<lparr>fname := g r\<rparr>) (rates rc)\<rparr>) rho T c))
        \<longleftrightarrow> isl (fst (evaluate_rates nuc ev rc rho T c))"
    by (cases "molar_frac nuc (X c)")
       (simp_all add: evaluate_rates_def get_molar_def evaluate_loop_isl_fname[of ev' _ _ _ g _ _ ev "[]"])
  show ?thesis
    using 1 2 by (simp add: write_network_def distinguishable_rates_distinct)
qed

theorem fname_collisions_stop_only_write_network_witness:
  "RateCollection_init ex_dup_rates = Inr ex_dup_rc
   \<and> \<not> distinct (map fname (rates ex_dup_rc))
   \<and> \<not> isl (fst (evaluate_rates ex_nuc ex_ev ex_dup_rc 10 1 ex_comp))
   \<and> write_network ex_dup_rc = Inl AssertionError
   \<and> distinct (map fname (rates ex_rc))
   \<and> write_network ex_rc = Inr (write_network_stub ex_rc)"
proof -
  let ?g = "\<lambda>r::nat Rate. ''p_p__d''"
  let ?rc = "ex_dup_rc\<lparr>rates := [ex_pp, ex_cag]\<rparr>"
  have d: "\<not> distinct (map fname (rates ex_dup_rc))"
    by (simp add: ex_dup_rc_def ex_dup_rates_def ex_pp_def ex_cag_def)
  have e: "distinct (map fname (rates ex_rc))"
    by (simp add: ex_rc_def ex_pp_def ex_cag_def ex_tab_def)
  have r: "?rc\<lparr>rates := map (\<lambda>r. r\<lparr>fname := ?g r\<rparr>) (rates ?rc)\<rparr> = ex_dup_rc"
    by (simp add: ex_dup_rc_def ex_dup_rates_def ex_pp_def ex_cag_def)
  have "\<not> isl (fst (evaluate_rates ex_nuc ex_ev ?rc 10 1 ex_comp))"
    by (simp add: evaluate_rates_def get_molar_def ex_comp_def ex_nuc_def ex_dup_rc_def
        ex_pp_def ex_cag_def py_pow_def)
  with fname_collisions_stop_only_write_network[of ?g "[]" ex_nuc ex_ev ?rc 10 1 ex_comp ex_ev]
  have v: "\<not> isl (fst (evaluate_rates ex_nuc ex_ev ex_dup_rc 10 1 ex_comp))"
    unfolding r by blast
  from fname_collisions_stop_only_write_network[of ?g "[]" ex_nuc ex_ev ex_dup_rc 10 1 ex_comp ex_ev] d
  have w: "write_network ex_dup_rc = Inl AssertionError"
    by blast
  from fname_collisions_stop_only_write_network[of ?g "[]" ex_nuc ex_ev ex_rc 10 1 ex_comp ex_ev] e
  have "write_network ex_rc = Inr (write_network_stub ex_rc)"
    by blast
  with ex_dup_init d e v w show ?thesis by simp
qed

section \<open>Properties of a composition\<close>

text \<open>
  C6 fails on this input: the first object is a nucleus and the second is the string
  \<^verbatim>\<open>"he4"\<close>; line 31 tests the first only, and the composition is built with the string
  as a key.
\<close>

theorem Composition_init_tests_first_only:
  "\<not> isinstance_Nucleus (Other_obj ''he4'' :: nat py_object)
   \<and> Composition_init [Nucleus_obj (1::nat), Other_obj ''he4''] (1 / 10 ^ 16)
       = Inr \<lparr>X = [(Nucleus_obj 1, 1 / 10 ^ 16), (Other_obj ''he4'', 1 / 10 ^ 16)]\<rparr>"
  by (simp add: Composition_init_def)

section \<open>Properties of the graph\<close>










section \<open>Properties of the rounding\<close>

text \<open>
  The exponent that \<open>binade\<close> finds, the rounding of a number that is a double, and the
  rounding in the normal range and beyond the largest double.
\<close>

lemma binade_ge1:
  "1 \<le> x \<Longrightarrow> 0 \<le> binade n x \<and> binade n x \<le> int n \<and> 2 powi (binade n x) \<le> x
     \<and> (x < 2 powi (binade n x + 1) \<or> binade n x = int n)"
proof (induction n arbitrary: x)
  case 0
  then show ?case by simp
next
  case (Suc n)
  show ?case
  proof (cases "2 \<le> x")
    case True
    then have "1 \<le> x / 2" by simp
    from Suc.IH[OF this] True show ?thesis
      by (auto simp: power_int_add field_simps)
  next
    case False
    with Suc.prems show ?thesis by simp
  qed
qed

lemma binade_lt2:
  "0 < x \<Longrightarrow> x < 2 \<Longrightarrow> binade n x \<le> 0 \<and> - int n \<le> binade n x \<and> x < 2 powi (binade n x + 1)
     \<and> (2 powi (binade n x) \<le> x \<or> binade n x = - int n)"
proof (induction n arbitrary: x)
  case 0
  then show ?case by simp
next
  case (Suc n)
  show ?case
  proof (cases "x < 1")
    case True
    then have "0 < x * 2" "x * 2 < 2" using Suc.prems by simp_all
    from Suc.IH[OF this] True Suc.prems show ?thesis
      by (auto simp: power_int_diff power_int_add field_simps)
  next
    case False
    with Suc.prems show ?thesis by simp
  qed
qed

lemma binade_props:
  assumes "0 < x"
  shows "- int n \<le> binade n x" "binade n x \<le> int n"
    "2 powi (binade n x) \<le> x \<or> binade n x = - int n"
    "x < 2 powi (binade n x + 1) \<or> binade n x = int n"
proof -
  consider "1 \<le> x" | "x < 2" by linarith
  then have "- int n \<le> binade n x \<and> binade n x \<le> int n
      \<and> (2 powi (binade n x) \<le> x \<or> binade n x = - int n)
      \<and> (x < 2 powi (binade n x + 1) \<or> binade n x = int n)"
  proof cases
    case 1
    from binade_ge1[OF 1, of n] show ?thesis by auto
  next
    case 2
    from binade_lt2[OF assms 2, of n] show ?thesis by auto
  qed
  then show "- int n \<le> binade n x" "binade n x \<le> int n"
    "2 powi (binade n x) \<le> x \<or> binade n x = - int n"
    "x < 2 powi (binade n x + 1) \<or> binade n x = int n"
    by auto
qed

lemma round_half_even_bounds: "\<lfloor>z\<rfloor> \<le> round_half_even z \<and> round_half_even z \<le> \<lfloor>z\<rfloor> + 1"
  by (simp add: round_half_even_def Let_def)

lemma round_half_even_of_int: "round_half_even (of_int k) = k"
  by (simp add: round_half_even_def Let_def)

lemma round_half_even_ge:
  assumes "of_int k \<le> z"
  shows "k \<le> round_half_even z"
proof -
  from assms have "k \<le> \<lfloor>z\<rfloor>" by (simp add: le_floor_iff)
  with round_half_even_bounds[of z] show ?thesis by simp
qed

lemma round_half_even_le:
  assumes "z \<le> of_int k"
  shows "round_half_even z \<le> k"
proof (cases "z = of_int k")
  case True
  then show ?thesis by (simp add: round_half_even_of_int)
next
  case False
  with assms have "z < of_int k" by simp
  then have "\<lfloor>z\<rfloor> < k" by (simp add: floor_less_iff)
  with round_half_even_bounds[of z] show ?thesis by simp
qed

lemma pow2_add: "(2::real) powi (a + b) = 2 powi a * 2 powi b"
  by (simp add: power_int_add)

lemma pow2_pos: "0 < (2::real) powi a"
  by simp

lemma pow2_mono: "a \<le> b \<Longrightarrow> (2::real) powi a \<le> 2 powi b"
  by (rule power_int_increasing) simp_all

lemma pow2_less_cancel: "(2::real) powi a < 2 powi b \<Longrightarrow> a < b"
  using pow2_mono[of b a] by (cases "a < b") simp_all

lemma pow2_split: "(2::real) powi e = 2 ^ n * 2 powi (e - int n)"
  using pow2_add[of "int n" "e - int n"] by simp

text \<open>A positive number of the form k * 2 ^ (e - 52) that lies in the binade e, or below
  the least normal binade when e = - 1022, is left unchanged.\<close>

lemma round_mag_representable:
  assumes r: "0 < r" "r = of_int k * 2 powi (e - 52)"
    and e: "- 1022 \<le> e" "e \<le> 1023"
    and pos: "(2 powi e \<le> r \<and> r < 2 powi (e + 1)) \<or> (e = - 1022 \<and> r < 2 powi (- 1022))"
  shows "round_mag r = r"
proof -
  let ?b = "binade 1100 r"
  note b = binade_props[OF r(1), of 1100]
  have "max ?b (- 1022) = e"
    using pos
  proof
    assume n: "2 powi e \<le> r \<and> r < 2 powi (e + 1)"
    have "\<not> ?b < e"
    proof
      assume l: "?b < e"
      with e have "?b \<noteq> int 1100" by simp
      with b(4) have "r < 2 powi (?b + 1)" by blast
      also have "\<dots> \<le> 2 powi e" using l by (intro pow2_mono) simp
      finally show False using n by simp
    qed
    moreover have "\<not> e < ?b"
    proof
      assume l: "e < ?b"
      with e have "?b \<noteq> - int 1100" by simp
      with b(3) have "2 powi ?b \<le> r" by blast
      moreover have "2 powi (e + 1) \<le> (2::real) powi ?b" using l by (intro pow2_mono) simp
      ultimately show False using n by simp
    qed
    ultimately show ?thesis using e by simp
  next
    assume s: "e = - 1022 \<and> r < 2 powi (- 1022)"
    have "?b < - 1022"
    proof (rule ccontr)
      assume "\<not> ?b < - 1022"
      then have l: "- 1022 \<le> ?b" by simp
      then have "?b \<noteq> - int 1100" by simp
      with b(3) have "2 powi ?b \<le> r" by blast
      moreover have "2 powi (- 1022) \<le> (2::real) powi ?b" using l by (intro pow2_mono) simp
      ultimately show False using s by simp
    qed
    with s show ?thesis by simp
  qed
  moreover have "r / 2 powi (e - 52) = of_int k"
    using r(2) by simp
  ultimately show ?thesis
    unfolding round_mag_def Let_def
    by (simp only: round_half_even_of_int) (simp add: r(2))
qed

lemma round_mag_nonneg: "0 \<le> y \<Longrightarrow> 0 \<le> round_mag y"
proof -
  assume y: "0 \<le> y"
  let ?q = "2 powi (max (binade 1100 y) (- 1022) - 52) :: real"
  have "0 \<le> y / ?q" using y by simp
  then have "0 \<le> round_half_even (y / ?q)"
    using round_half_even_ge[of 0 "y / ?q"] by simp
  then show ?thesis
    unfolding round_mag_def Let_def by simp
qed

lemma round_mag_fixed:
  assumes y: "0 < y" and r: "0 < round_mag y" "round_mag y < 2 ^ 1024"
  shows "round_mag (round_mag y) = round_mag y"
proof -
  let ?b = "binade 1100 y"
  define e where "e = max ?b (- 1022)"
  define q :: real where "q = 2 powi (e - 52)"
  define m where "m = round_half_even (y / q)"
  have rm: "round_mag y = of_int m * q"
    by (simp add: round_mag_def Let_def e_def q_def m_def)
  have q: "0 < q" by (simp add: q_def)
  note b = binade_props[OF y, of 1100]
  have qe: "2 ^ 52 * q = 2 powi e"
    unfolding q_def using pow2_split[of e 52] by simp
  have qe1: "2 ^ 53 * q = 2 powi (e + 1)"
    unfolding q_def using pow2_split[of "e + 1" 53] by simp
  have m1: "1 \<le> m"
  proof (rule ccontr)
    assume "\<not> 1 \<le> m"
    then have "m \<le> 0" by simp
    then have "of_int m * q \<le> 0" using q by (simp add: mult_le_0_iff)
    with r(1) rm show False by simp
  qed
  have lt1024: "2 powi e' \<le> round_mag y \<Longrightarrow> e' \<le> 1023" for e'
  proof -
    assume "2 powi e' \<le> round_mag y"
    with r(2) have "(2::real) powi e' < 2 powi 1024" by simp
    from pow2_less_cancel[OF this] show ?thesis by simp
  qed
  show ?thesis
  proof (cases "- 1022 \<le> ?b")
    case True
    then have e: "e = ?b" by (simp add: e_def)
    from True have "?b \<noteq> - int 1100" by simp
    with b(3) have lo: "2 powi e \<le> y" unfolding e by blast
    then have "2 ^ 52 \<le> y / q"
      using q qe by (simp add: pos_le_divide_eq)
    then have mlo: "2 ^ 52 \<le> m"
      unfolding m_def using round_half_even_ge[of "2 ^ 52" "y / q"] by simp
    then have rlo: "2 powi e \<le> round_mag y"
    proof -
      have "2 ^ 52 * q \<le> of_int m * q"
        using mlo q by (intro mult_right_mono) simp_all
      then show ?thesis unfolding rm qe .
    qed
    have e1023: "e \<le> 1023" using lt1024[OF rlo] .
    then have "?b \<noteq> int 1100" by (simp add: e)
    with b(4) have hi: "y < 2 powi (e + 1)" unfolding e by blast
    then have "y / q \<le> 2 ^ 53"
      using q qe1 by (simp add: pos_divide_le_eq)
    then have mhi: "m \<le> 2 ^ 53"
      unfolding m_def using round_half_even_le[of "y / q" "2 ^ 53"] by simp
    show ?thesis
    proof (cases "m = 2 ^ 53")
      case True
      then have r1: "round_mag y = 2 powi (e + 1)"
        by (simp only: rm of_int_power of_int_numeral qe1)
      have "2 powi (e + 1) = 2 ^ 52 * (2::real) powi (e + 1 - 52)"
        using pow2_split[of "e + 1" 52] by simp
      then have r2: "round_mag y = of_int (2 ^ 52) * 2 powi (e + 1 - 52)"
        using r1 by simp
      have "(2::real) powi (e + 1) < 2 powi (e + 1 + 1)"
        by (intro power_int_strict_increasing) simp_all
      then have pos: "(2 powi (e + 1) \<le> round_mag y \<and> round_mag y < 2 powi (e + 1 + 1))
          \<or> (e + 1 = - 1022 \<and> round_mag y < 2 powi (- 1022))"
        using r1 by simp
      have "e + 1 \<le> 1023" using lt1024[of "e + 1"] r1 by simp
      moreover have "- 1022 \<le> e + 1" using \<open>- 1022 \<le> ?b\<close> e by simp
      ultimately show ?thesis
        using round_mag_representable[OF r(1) r2 _ _ pos] by simp
    next
      case False
      with mhi have "m \<le> 2 ^ 53 - 1" by simp
      then have "(of_int m :: real) \<le> of_int (2 ^ 53 - 1)"
        by (simp only: of_int_le_iff)
      then have "of_int m \<le> (2 ^ 53 - 1 :: real)"
        by (simp only: of_int_diff of_int_power of_int_numeral of_int_1)
      then have "of_int m * q \<le> (2 ^ 53 - 1) * q"
        using q by (intro mult_right_mono) simp_all
      also have "\<dots> < 2 ^ 53 * q" using q by simp
      finally have "round_mag y < 2 powi (e + 1)" unfolding rm qe1 .
      with rlo have pos: "(2 powi e \<le> round_mag y \<and> round_mag y < 2 powi (e + 1))
          \<or> (e = - 1022 \<and> round_mag y < 2 powi (- 1022))"
        by simp
      have r2: "round_mag y = of_int m * 2 powi (e - 52)"
        by (simp add: rm q_def)
      have "- 1022 \<le> e" using \<open>- 1022 \<le> ?b\<close> e by simp
      from round_mag_representable[OF r(1) r2 this e1023 pos] show ?thesis .
    qed
  next
    case False
    then have e: "e = - 1022" by (simp add: e_def)
    from False have "?b \<noteq> int 1100" by simp
    with b(4) have "y < 2 powi (?b + 1)" by blast
    also have "\<dots> \<le> 2 powi e" unfolding e using False by (intro pow2_mono) simp
    finally have "y < 2 powi e" .
    then have "y / q \<le> 2 ^ 52"
      using q qe by (simp add: pos_divide_le_eq)
    then have mhi: "m \<le> 2 ^ 52"
      unfolding m_def using round_half_even_le[of "y / q" "2 ^ 52"] by simp
    have r2: "round_mag y = of_int m * 2 powi (e - 52)"
      by (simp add: rm q_def)
    have pos: "(2 powi e \<le> round_mag y \<and> round_mag y < 2 powi (e + 1))
          \<or> (e = - 1022 \<and> round_mag y < 2 powi (- 1022))"
    proof (cases "m = 2 ^ 52")
      case True
      then have "round_mag y = 2 powi e"
        by (simp only: rm of_int_power of_int_numeral qe)
      moreover have "(2::real) powi e < 2 powi (e + 1)"
        by (intro power_int_strict_increasing) simp_all
      ultimately show ?thesis by simp
    next
      case False
      with mhi have "m \<le> 2 ^ 52 - 1" by simp
      then have "(of_int m :: real) \<le> of_int (2 ^ 52 - 1)"
        by (simp only: of_int_le_iff)
      then have "of_int m \<le> (2 ^ 52 - 1 :: real)"
        by (simp only: of_int_diff of_int_power of_int_numeral of_int_1)
      then have "of_int m * q \<le> (2 ^ 52 - 1) * q"
        using q by (intro mult_right_mono) simp_all
      also have "\<dots> < 2 ^ 52 * q" using q by simp
      finally have "round_mag y < 2 powi e" unfolding rm qe .
      then show ?thesis by (simp add: e)
    qed
    have "- 1022 \<le> e" "e \<le> 1023" by (simp_all add: e)
    from round_mag_representable[OF r(1) r2 this pos] show ?thesis .
  qed
qed

lemma round_to_double_fixed:
  assumes "round_to_double x = Fin y"
  shows "round_to_double y = Fin y"
proof (cases "x = 0")
  case True
  with assms show ?thesis by (simp add: round_to_double_def)
next
  case False
  let ?r = "round_mag \<bar>x\<bar>"
  from False assms have r: "?r < 2 ^ 1024" and y: "y = sgn x * ?r"
    by (auto simp: round_to_double_def Let_def split: if_splits)
  have r0: "0 \<le> ?r" by (rule round_mag_nonneg) simp
  show ?thesis
  proof (cases "?r = 0")
    case True
    then show ?thesis by (simp add: y round_to_double_def)
  next
    case False
    with r0 have rp: "0 < ?r" by simp
    have "0 < \<bar>x\<bar>" using \<open>x \<noteq> 0\<close> by simp
    from round_mag_fixed[OF this rp r] have f: "round_mag ?r = ?r" .
    have a: "\<bar>y\<bar> = ?r" using rp \<open>x \<noteq> 0\<close> by (simp add: y abs_mult abs_sgn_eq)
    have s: "sgn y = sgn x" using rp \<open>x \<noteq> 0\<close> by (simp add: y sgn_mult)
    have "y \<noteq> 0" using a rp by auto
    moreover have "0 < y \<longleftrightarrow> 0 < x" using s \<open>y \<noteq> 0\<close> \<open>x \<noteq> 0\<close>
      by (metis sgn_greater)
    ultimately have "round_to_double y
        = (if 2 ^ 1024 \<le> round_mag \<bar>y\<bar> then (if 0 < x then PInf else NInf)
           else Fin (sgn y * round_mag \<bar>y\<bar>))"
      by (simp only: round_to_double_def Let_def if_False)
    also have "\<dots> = Fin (sgn x * ?r)"
      using r unfolding a f s by (simp only: not_le[symmetric] if_False)
    finally show ?thesis by (simp only: y)
  qed
qed

lemma round_to_double_overflow:
  assumes "2 ^ 1024 \<le> \<bar>x\<bar>"
  shows "round_to_double x = (if 0 < x then PInf else NInf)"
proof -
  let ?y = "\<bar>x\<bar>"
  have "(0::real) < 2 ^ 1024" by (rule zero_less_power) simp
  from this assms have y: "0 < ?y" by (rule less_le_trans)
  let ?b = "binade 1100 ?y"
  note b = binade_props[OF y, of 1100]
  have b1024: "1024 \<le> ?b"
  proof (cases "?b = int 1100")
    case True
    then show ?thesis by simp
  next
    case False
    with b(4) have "?y < 2 powi (?b + 1)" by blast
    with assms have "(2::real) powi 1024 < 2 powi (?b + 1)" by simp
    from pow2_less_cancel[OF this] show ?thesis by simp
  qed
  then have e: "max ?b (- 1022) = ?b" by simp
  let ?q = "2 powi (?b - 52) :: real"
  have q: "0 < ?q" by simp
  have qe: "2 ^ 52 * ?q = 2 powi ?b"
    using pow2_split[of ?b 52] by simp
  from b1024 have "?b \<noteq> - int 1100" by simp
  with b(3) have "2 powi ?b \<le> ?y" by blast
  then have "2 ^ 52 \<le> ?y / ?q"
    using q qe by (simp add: pos_le_divide_eq)
  then have "2 ^ 52 \<le> round_half_even (?y / ?q)"
    using round_half_even_ge[of "2 ^ 52" "?y / ?q"] by simp
  then have "2 ^ 52 * ?q \<le> of_int (round_half_even (?y / ?q)) * ?q"
    using q by (intro mult_right_mono) simp_all
  then have "2 powi ?b \<le> round_mag ?y"
    unfolding round_mag_def Let_def e qe .
  moreover have "(2::real) powi 1024 \<le> 2 powi ?b"
    using b1024 by (intro pow2_mono)
  ultimately have "2 ^ 1024 \<le> round_mag ?y" by simp
  moreover have "x \<noteq> 0" using y by simp
  ultimately show ?thesis
    by (simp add: round_to_double_def Let_def)
qed

lemma binade_unique:
  assumes x: "2 powi e \<le> x" "x < 2 powi (e + 1)" and e: "- 1100 < e" "e < 1100"
  shows "binade 1100 x = e"
proof -
  have "0 < x" using x(1) pow2_pos[of e] by (rule less_le_trans[rotated])
  note b = binade_props[OF this, of 1100]
  let ?b = "binade 1100 x"
  have "\<not> ?b < e"
  proof
    assume l: "?b < e"
    with e have "?b \<noteq> int 1100" by simp
    with b(4) have "x < 2 powi (?b + 1)" by blast
    also have "\<dots> \<le> 2 powi e" using l by (intro pow2_mono) simp
    finally show False using x by simp
  qed
  moreover have "\<not> e < ?b"
  proof
    assume l: "e < ?b"
    with e have "?b \<noteq> - int 1100" by simp
    with b(3) have "2 powi ?b \<le> x" by blast
    moreover have "2 powi (e + 1) \<le> (2::real) powi ?b" using l by (intro pow2_mono) simp
    ultimately show False using x by simp
  qed
  ultimately show ?thesis by simp
qed

lemma round_to_double_normal:
  assumes x: "2 powi e \<le> \<bar>x\<bar>" "\<bar>x\<bar> < 2 powi (e + 1)" and e: "- 1022 \<le> e" "e \<le> 1022"
    and y: "y = sgn x * (of_int (round_half_even (\<bar>x\<bar> / 2 powi (e - 52))) * 2 powi (e - 52))"
  shows "round_to_double x = Fin y"
proof -
  let ?q = "2 powi (e - 52) :: real"
  let ?m = "round_half_even (\<bar>x\<bar> / ?q)"
  have b: "binade 1100 \<bar>x\<bar> = e"
    using x e by (intro binade_unique) simp_all
  have rm: "round_mag \<bar>x\<bar> = of_int ?m * ?q"
    using e by (simp add: round_mag_def Let_def b)
  have q: "0 < ?q" by simp
  have qe1: "2 ^ 53 * ?q = 2 powi (e + 1)"
    using pow2_split[of "e + 1" 53] by simp
  have "\<bar>x\<bar> / ?q \<le> 2 ^ 53"
    using x(2) q qe1 by (simp add: pos_divide_le_eq)
  then have "?m \<le> 2 ^ 53"
    using round_half_even_le[of "\<bar>x\<bar> / ?q" "2 ^ 53"] by simp
  then have "(of_int ?m :: real) \<le> of_int (2 ^ 53)"
    by (simp only: of_int_le_iff)
  then have "of_int ?m \<le> (2 ^ 53 :: real)"
    by (simp only: of_int_power of_int_numeral)
  then have "of_int ?m * ?q \<le> 2 ^ 53 * ?q"
    using q by (intro mult_right_mono) simp_all
  also have "\<dots> = 2 powi (e + 1)" by (rule qe1)
  also have "\<dots> < 2 powi 1024"
    using e by (intro power_int_strict_increasing) simp_all
  finally have lt: "round_mag \<bar>x\<bar> < 2 powi 1024" unfolding rm .
  have "(2::real) powi 1024 = 2 ^ 1024"
    using power_int_of_nat[of "2::real" 1024] by simp
  with lt have "\<not> 2 ^ 1024 \<le> round_mag \<bar>x\<bar>" by (simp only: not_le)
  moreover have "x \<noteq> 0"
  proof
    assume "x = 0"
    with x(1) have "2 powi e \<le> (0::real)" by simp
    with pow2_pos[of e] show False by linarith
  qed
  ultimately have "round_to_double x = Fin (sgn x * round_mag \<bar>x\<bar>)"
    by (simp only: round_to_double_def Let_def if_False)
  then show ?thesis unfolding rm y .
qed


lemma round_to_double_is_double: "is_double (round_to_double x)"
  by (cases "round_to_double x") (simp_all add: is_double_def round_to_double_fixed)

lemma d_add_is_double: "is_double (d_add x y)"
  by (cases x; cases y) (simp_all add: round_to_double_is_double, simp_all add: is_double_def)

lemma d_sub_is_double: "is_double (d_sub x y)"
  by (simp add: d_sub_def d_add_is_double)

lemma d_div_is_double: "d_div x y = Inr z \<Longrightarrow> is_double z"
  by (cases x; cases y)
     (auto simp: is_double_def round_to_double_fixed round_to_double_def[of 0]
           split: if_splits double.splits)

lemma d_div_nonzero: "s \<noteq> Fin 0 \<Longrightarrow> \<exists>q. d_div v s = Inr q"
  by (cases v; cases s) auto

lemma d_add_Fin: "d_add x y = Fin r \<Longrightarrow> (\<exists>a. x = Fin a) \<and> (\<exists>b. y = Fin b)"
  by (cases x; cases y) auto

lemma foldl_d_add_Fin:
  "foldl d_add a vs = Fin s \<Longrightarrow> (\<exists>r. a = Fin r) \<and> (\<forall>v\<in>set vs. \<exists>r. v = Fin r)"
proof (induction vs arbitrary: a)
  case Nil
  then show ?case by simp
next
  case (Cons v vs)
  then have "foldl d_add (d_add a v) vs = Fin s" by simp
  from Cons.IH[OF this] d_add_Fin[of a v] show ?case by auto
qed

section \<open>Evaluated operations on doubles\<close>

text \<open>
  The operations on the doubles of the examples; the exponent of the exact result is given
  to \<open>round_to_double_normal\<close>. The denominators are powers of 2.
\<close>

lemma double_lit_1: "round_to_double 0 = Fin 0"
  by (simp add: round_to_double_def)

lemma double_sum_1: "d_add (Fin 0) (Fin 1) = Fin 1"
  by (simp only: d_add.simps) (rule round_to_double_normal[where e = "0"], simp_all add: round_half_even_def)

lemma double_sum_2: "d_add (Fin 1) (Fin 3) = Fin 4"
  by (simp only: d_add.simps) (rule round_to_double_normal[where e = "2"], simp_all add: round_half_even_def)

lemma double_quot_1: "d_div (Fin 1) (Fin 4) = Inr (Fin (1 / 4))"
  by simp (rule round_to_double_normal[where e = "- 2"], simp_all add: round_half_even_def)

lemma double_quot_2: "d_div (Fin 3) (Fin 4) = Inr (Fin (3 / 4))"
  by simp (rule round_to_double_normal[where e = "- 1"], simp_all add: round_half_even_def)

lemma double_sum_3: "d_add (Fin 0) (Fin (1 / 4)) = Fin (1 / 4)"
  by (simp only: d_add.simps) (rule round_to_double_normal[where e = "- 2"], simp_all add: round_half_even_def)

lemma double_sum_4: "d_add (Fin (1 / 4)) (Fin (3 / 4)) = Fin 1"
  by (simp only: d_add.simps) (rule round_to_double_normal[where e = "0"], simp_all add: round_half_even_def)

lemma double_sum_5: "d_add (Fin 0) (Fin 8) = Fin 8"
  by (simp only: d_add.simps) (rule round_to_double_normal[where e = "3"], simp_all add: round_half_even_def)

lemma double_sum_6: "d_add (Fin 8) (Fin 9) = Fin 17"
  by (simp only: d_add.simps) (rule round_to_double_normal[where e = "4"], simp_all add: round_half_even_def)

lemma double_sum_7: "d_add (Fin 17) (Fin 9) = Fin 26"
  by (simp only: d_add.simps) (rule round_to_double_normal[where e = "4"], simp_all add: round_half_even_def)

lemma double_sum_8: "d_add (Fin 26) (Fin 9) = Fin 35"
  by (simp only: d_add.simps) (rule round_to_double_normal[where e = "5"], simp_all add: round_half_even_def)

lemma double_quot_3: "d_div (Fin 8) (Fin 35) = Inr (Fin (8235153604334621 / 36028797018963968))"
  by simp (rule round_to_double_normal[where e = "- 3"], simp_all add: round_half_even_def)

lemma double_quot_4: "d_div (Fin 9) (Fin 35) = Inr (Fin (289517118902389 / 1125899906842624))"
  by simp (rule round_to_double_normal[where e = "- 2"], simp_all add: round_half_even_def)

lemma double_sum_9: "d_add (Fin 0) (Fin (8235153604334621 / 36028797018963968)) = Fin (8235153604334621 / 36028797018963968)"
  by (simp only: d_add.simps) (rule round_to_double_normal[where e = "- 3"], simp_all add: round_half_even_def)

lemma double_sum_10: "d_add (Fin (8235153604334621 / 36028797018963968)) (Fin (289517118902389 / 1125899906842624)) = Fin (4374925352302767 / 9007199254740992)"
  by (simp only: d_add.simps) (rule round_to_double_normal[where e = "- 2"], simp_all add: round_half_even_def)

lemma double_sum_11: "d_add (Fin (4374925352302767 / 9007199254740992)) (Fin (289517118902389 / 1125899906842624)) = Fin (6691062303521879 / 9007199254740992)"
  by (simp only: d_add.simps) (rule round_to_double_normal[where e = "- 1"], simp_all add: round_half_even_def)

lemma double_sum_12: "d_add (Fin (6691062303521879 / 9007199254740992)) (Fin (289517118902389 / 1125899906842624)) = Fin (9007199254740991 / 9007199254740992)"
  by (simp only: d_add.simps) (rule round_to_double_normal[where e = "- 1"], simp_all add: round_half_even_def)

lemma double_quot_5: "d_div (Fin (8235153604334621 / 36028797018963968)) (Fin (9007199254740991 / 9007199254740992)) = Inr (Fin (4117576802167311 / 18014398509481984))"
  by simp (rule round_to_double_normal[where e = "- 3"], simp_all add: round_half_even_def)

lemma double_quot_6: "d_div (Fin (289517118902389 / 1125899906842624)) (Fin (9007199254740991 / 9007199254740992)) = Inr (Fin (4632273902438225 / 18014398509481984))"
  by simp (rule round_to_double_normal[where e = "- 2"], simp_all add: round_half_even_def)

lemma double_lit_2: "round_to_double (1 / 50) = Fin (5764607523034235 / 288230376151711744)"
  by (rule round_to_double_normal[where e = "- 6"]) (simp_all add: round_half_even_def)

lemma double_lit_3: "round_to_double (7 / 10) = Fin (3152519739159347 / 4503599627370496)"
  by (rule round_to_double_normal[where e = "- 1"]) (simp_all add: round_half_even_def)

lemma double_lit_4: "round_to_double (3 / 10) = Fin (5404319552844595 / 18014398509481984)"
  by (rule round_to_double_normal[where e = "- 2"]) (simp_all add: round_half_even_def)

lemma double_diff_1: "d_sub (Fin (5404319552844595 / 18014398509481984)) (Fin (5764607523034235 / 288230376151711744)) = Fin (5044031582654955 / 18014398509481984)"
  by (simp only: d_sub_def d_neg.simps d_add.simps) (rule round_to_double_normal[where e = "- 2"], simp_all add: round_half_even_def)

lemma double_lit_5: "round_to_double 2 = Fin 2"
  by (rule round_to_double_normal[where e = "1"]) (simp_all add: round_half_even_def)

lemma double_int_1: "d_int 2 = Inr (Fin 2)"
  by (simp add: d_int_def double_lit_5)

lemma double_quot_7: "d_div (Fin (5764607523034235 / 288230376151711744)) (Fin 2) = Inr (Fin (5764607523034235 / 576460752303423488))"
  by simp (rule round_to_double_normal[where e = "- 7"], simp_all add: round_half_even_def)

lemma double_lit_6: "round_to_double (1 / 100) = Fin (5764607523034235 / 576460752303423488)"
  by (rule round_to_double_normal[where e = "- 7"]) (simp_all add: round_half_even_def)

lemma double_lit_7: "round_to_double (7 / 25) = Fin (1261007895663739 / 4503599627370496)"
  by (rule round_to_double_normal[where e = "- 2"]) (simp_all add: round_half_even_def)

lemma double_quot_8: "d_div (Fin (3152519739159347 / 4503599627370496)) (Fin 1) = Inr (Fin (3152519739159347 / 4503599627370496))"
  by simp (rule round_to_double_normal[where e = "- 1"], simp_all add: round_half_even_def)

lemma double_quot_9: "d_div (Fin (5044031582654955 / 18014398509481984)) (Fin 1) = Inr (Fin (5044031582654955 / 18014398509481984))"
  by simp (rule round_to_double_normal[where e = "- 2"], simp_all add: round_half_even_def)

lemma double_quot_10: "d_div (Fin (5764607523034235 / 576460752303423488)) (Fin 1) = Inr (Fin (5764607523034235 / 576460752303423488))"
  by simp (rule round_to_double_normal[where e = "- 7"], simp_all add: round_half_even_def)

lemma double_sum_13: "d_add (Fin 0) (Fin (5764607523034235 / 576460752303423488)) = Fin (5764607523034235 / 576460752303423488)"
  by (simp only: d_add.simps) (rule round_to_double_normal[where e = "- 7"], simp_all add: round_half_even_def)

lemma double_sum_14: "d_add (Fin (5764607523034235 / 576460752303423488)) (Fin (5764607523034235 / 576460752303423488)) = Fin (5764607523034235 / 288230376151711744)"
  by (simp only: d_add.simps) (rule round_to_double_normal[where e = "- 6"], simp_all add: round_half_even_def)

lemma double_sum_15: "d_add (Fin (5764607523034235 / 288230376151711744)) (Fin (5044031582654955 / 18014398509481984)) = Fin (5404319552844595 / 18014398509481984)"
  by (simp only: d_add.simps) (rule round_to_double_normal[where e = "- 2"], simp_all add: round_half_even_def)

lemma double_sum_16: "d_add (Fin (5404319552844595 / 18014398509481984)) (Fin (3152519739159347 / 4503599627370496)) = Fin 1"
  by (simp only: d_add.simps) (rule round_to_double_normal[where e = "- 1"], simp_all add: round_half_even_def)

lemma double_sum_17: "d_add (Fin (5764607523034235 / 288230376151711744)) (Fin (3152519739159347 / 4503599627370496)) = Fin (3242591731706757 / 4503599627370496)"
  by (simp only: d_add.simps) (rule round_to_double_normal[where e = "- 1"], simp_all add: round_half_even_def)

lemma double_sum_18: "d_add (Fin (3242591731706757 / 4503599627370496)) (Fin (5044031582654955 / 18014398509481984)) = Fin 1"
  by (simp only: d_add.simps) (rule round_to_double_normal[where e = "- 1"], simp_all add: round_half_even_def)

lemma double_sum_19: "d_add (Fin (5764607523034235 / 576460752303423488)) (Fin (5044031582654955 / 18014398509481984)) = Fin (5224175567749775 / 18014398509481984)"
  by (simp only: d_add.simps) (rule round_to_double_normal[where e = "- 2"], simp_all add: round_half_even_def)

lemma double_sum_20: "d_add (Fin (5224175567749775 / 18014398509481984)) (Fin (5764607523034235 / 576460752303423488)) = Fin (5404319552844595 / 18014398509481984)"
  by (simp only: d_add.simps) (rule round_to_double_normal[where e = "- 2"], simp_all add: round_half_even_def)

lemma double_sum_21: "d_add (Fin (5224175567749775 / 18014398509481984)) (Fin (3152519739159347 / 4503599627370496)) = Fin (4458563631096791 / 4503599627370496)"
  by (simp only: d_add.simps) (rule round_to_double_normal[where e = "- 1"], simp_all add: round_half_even_def)

lemma double_sum_22: "d_add (Fin (4458563631096791 / 4503599627370496)) (Fin (5764607523034235 / 576460752303423488)) = Fin 1"
  by (simp only: d_add.simps) (rule round_to_double_normal[where e = "- 1"], simp_all add: round_half_even_def)

lemma double_sum_23: "d_add (Fin (5764607523034235 / 576460752303423488)) (Fin (3152519739159347 / 4503599627370496)) = Fin (799388933858263 / 1125899906842624)"
  by (simp only: d_add.simps) (rule round_to_double_normal[where e = "- 1"], simp_all add: round_half_even_def)

lemma double_sum_24: "d_add (Fin (799388933858263 / 1125899906842624)) (Fin (5764607523034235 / 576460752303423488)) = Fin (3242591731706757 / 4503599627370496)"
  by (simp only: d_add.simps) (rule round_to_double_normal[where e = "- 1"], simp_all add: round_half_even_def)

lemma double_sum_25: "d_add (Fin (799388933858263 / 1125899906842624)) (Fin (5044031582654955 / 18014398509481984)) = Fin (4458563631096791 / 4503599627370496)"
  by (simp only: d_add.simps) (rule round_to_double_normal[where e = "- 1"], simp_all add: round_half_even_def)

lemma double_sum_26: "d_add (Fin 0) (Fin (5044031582654955 / 18014398509481984)) = Fin (5044031582654955 / 18014398509481984)"
  by (simp only: d_add.simps) (rule round_to_double_normal[where e = "- 2"], simp_all add: round_half_even_def)

lemma double_sum_27: "d_add (Fin (5044031582654955 / 18014398509481984)) (Fin (5764607523034235 / 576460752303423488)) = Fin (5224175567749775 / 18014398509481984)"
  by (simp only: d_add.simps) (rule round_to_double_normal[where e = "- 2"], simp_all add: round_half_even_def)

lemma double_sum_28: "d_add (Fin (5044031582654955 / 18014398509481984)) (Fin (3152519739159347 / 4503599627370496)) = Fin (2206763817411543 / 2251799813685248)"
  by (simp only: d_add.simps) (rule round_to_double_normal[where e = "- 1"], simp_all add: round_half_even_def)

lemma double_sum_29: "d_add (Fin (2206763817411543 / 2251799813685248)) (Fin (5764607523034235 / 576460752303423488)) = Fin (4458563631096791 / 4503599627370496)"
  by (simp only: d_add.simps) (rule round_to_double_normal[where e = "- 1"], simp_all add: round_half_even_def)

lemma double_sum_30: "d_add (Fin 0) (Fin (3152519739159347 / 4503599627370496)) = Fin (3152519739159347 / 4503599627370496)"
  by (simp only: d_add.simps) (rule round_to_double_normal[where e = "- 1"], simp_all add: round_half_even_def)

lemma double_sum_31: "d_add (Fin (3152519739159347 / 4503599627370496)) (Fin (5764607523034235 / 576460752303423488)) = Fin (799388933858263 / 1125899906842624)"
  by (simp only: d_add.simps) (rule round_to_double_normal[where e = "- 1"], simp_all add: round_half_even_def)

lemma double_sum_32: "d_add (Fin (3152519739159347 / 4503599627370496)) (Fin (5044031582654955 / 18014398509481984)) = Fin (2206763817411543 / 2251799813685248)"
  by (simp only: d_add.simps) (rule round_to_double_normal[where e = "- 1"], simp_all add: round_half_even_def)

lemma double_lit_8: "round_to_double 1 = Fin 1"
  by (rule round_to_double_normal[where e = "0"]) (simp_all add: round_half_even_def)

lemma double_int_2: "d_int 1 = Inr (Fin 1)"
  by (simp add: d_int_def double_lit_8)

lemma double_lit_9: "round_to_double 4 = Fin 4"
  by (rule round_to_double_normal[where e = "2"]) (simp_all add: round_half_even_def)

lemma double_int_3: "d_int 4 = Inr (Fin 4)"
  by (simp add: d_int_def double_lit_9)

lemma double_lit_10: "round_to_double 12 = Fin 12"
  by (rule round_to_double_normal[where e = "3"]) (simp_all add: round_half_even_def)

lemma double_int_4: "d_int 12 = Inr (Fin 12)"
  by (simp add: d_int_def double_lit_10)

lemma double_lit_11: "round_to_double 16 = Fin 16"
  by (rule round_to_double_normal[where e = "4"]) (simp_all add: round_half_even_def)

lemma double_int_5: "d_int 16 = Inr (Fin 16)"
  by (simp add: d_int_def double_lit_11)

lemma double_quot_11: "d_div (Fin (1 / 2)) (Fin 1) = Inr (Fin (1 / 2))"
  by simp (rule round_to_double_normal[where e = "- 1"], simp_all add: round_half_even_def)

lemma double_quot_12: "d_div (Fin (1 / 4)) (Fin 4) = Inr (Fin (1 / 16))"
  by simp (rule round_to_double_normal[where e = "- 4"], simp_all add: round_half_even_def)

lemma double_quot_13: "d_div (Fin (3 / 16)) (Fin 12) = Inr (Fin (1 / 64))"
  by simp (rule round_to_double_normal[where e = "- 6"], simp_all add: round_half_even_def)

lemma double_quot_14: "d_div (Fin (1 / 16)) (Fin 16) = Inr (Fin (1 / 256))"
  by simp (rule round_to_double_normal[where e = "- 8"], simp_all add: round_half_even_def)

lemma double_lit_12: "round_to_double 100 = Fin 100"
  by (rule round_to_double_normal[where e = "6"]) (simp_all add: round_half_even_def)

lemma double_pow_1: "d_pow (Fin 10) 2 = Inr (Fin 100)"
  by (simp add: d_pow_def double_lit_5 double_lit_12)

lemma double_prod_1: "d_mul (Fin 1) (Fin 100) = Fin 100"
  by (simp only: d_mul.simps) (rule round_to_double_normal[where e = "6"], simp_all add: round_half_even_def)

lemma double_prod_2: "d_mul (Fin 100) (Fin 3) = Fin 300"
  by (simp only: d_mul.simps) (rule round_to_double_normal[where e = "8"], simp_all add: round_half_even_def)

lemma double_prod_3: "d_mul (Fin (1 / 2)) (Fin (1 / 2)) = Fin (1 / 4)"
  by (simp only: d_mul.simps) (rule round_to_double_normal[where e = "- 2"], simp_all add: round_half_even_def)

lemma double_prod_4: "d_mul (Fin (1 / 4)) (Fin 300) = Fin 75"
  by (simp only: d_mul.simps) (rule round_to_double_normal[where e = "6"], simp_all add: round_half_even_def)

lemma double_lit_13: "round_to_double 10 = Fin 10"
  by (rule round_to_double_normal[where e = "3"]) (simp_all add: round_half_even_def)

lemma double_pow_2: "d_pow (Fin 10) 1 = Inr (Fin 10)"
  by (simp add: d_pow_def double_lit_8 double_lit_13)

lemma double_prod_5: "d_mul (Fin 1) (Fin 10) = Fin 10"
  by (simp only: d_mul.simps) (rule round_to_double_normal[where e = "3"], simp_all add: round_half_even_def)

lemma double_prod_6: "d_mul (Fin 10) (Fin 3) = Fin 30"
  by (simp only: d_mul.simps) (rule round_to_double_normal[where e = "4"], simp_all add: round_half_even_def)

lemma double_prod_7: "d_mul (Fin (1 / 64)) (Fin (1 / 16)) = Fin (1 / 1024)"
  by (simp only: d_mul.simps) (rule round_to_double_normal[where e = "- 10"], simp_all add: round_half_even_def)

lemma double_prod_8: "d_mul (Fin (1 / 1024)) (Fin 30) = Fin (15 / 512)"
  by (simp only: d_mul.simps) (rule round_to_double_normal[where e = "- 6"], simp_all add: round_half_even_def)

lemma double_pow_3: "d_pow (Fin 10) 0 = Inr (Fin 1)"
  by (simp add: d_pow_def double_lit_1)

lemma double_prod_9: "d_mul (Fin 1) (Fin 1) = Fin 1"
  by (simp only: d_mul.simps) (rule round_to_double_normal[where e = "0"], simp_all add: round_half_even_def)

lemma double_prod_10: "d_mul (Fin 1) (Fin 3) = Fin 3"
  by (simp only: d_mul.simps) (rule round_to_double_normal[where e = "1"], simp_all add: round_half_even_def)

lemma double_prod_11: "d_mul (Fin (1 / 256)) (Fin 3) = Fin (3 / 256)"
  by (simp only: d_mul.simps) (rule round_to_double_normal[where e = "- 7"], simp_all add: round_half_even_def)

lemma double_quot_15: "d_div (Fin (3602879701896397 / 36028797018963968)) (Fin 1) = Inr (Fin (3602879701896397 / 36028797018963968))"
  by simp (rule round_to_double_normal[where e = "- 4"], simp_all add: round_half_even_def)

lemma double_prod_12: "d_mul (Fin 1) (Fin (3602879701896397 / 36028797018963968)) = Fin (3602879701896397 / 36028797018963968)"
  by (simp only: d_mul.simps) (rule round_to_double_normal[where e = "- 4"], simp_all add: round_half_even_def)

lemma double_prod_13: "d_mul (Fin (3602879701896397 / 36028797018963968)) (Fin (3602879701896397 / 36028797018963968)) = Fin (1441151880758559 / 144115188075855872)"
  by (simp only: d_mul.simps) (rule round_to_double_normal[where e = "- 7"], simp_all add: round_half_even_def)

lemma double_lit_14: "round_to_double (- 1) = Fin (- 1)"
  by (rule round_to_double_normal[where e = "0"]) (simp_all add: round_half_even_def)

lemmas double_arith =
  double_lit_1 double_sum_1 double_sum_2 double_quot_1 double_quot_2 double_sum_3 double_sum_4 double_sum_5 double_sum_6 double_sum_7
  double_sum_8 double_quot_3 double_quot_4 double_sum_9 double_sum_10 double_sum_11 double_sum_12 double_quot_5 double_quot_6 double_lit_2
  double_lit_3 double_lit_4 double_diff_1 double_lit_5 double_int_1 double_quot_7 double_lit_6 double_lit_7 double_quot_8 double_quot_9
  double_quot_10 double_sum_13 double_sum_14 double_sum_15 double_sum_16 double_sum_17 double_sum_18 double_sum_19 double_sum_20 double_sum_21
  double_sum_22 double_sum_23 double_sum_24 double_sum_25 double_sum_26 double_sum_27 double_sum_28 double_sum_29 double_sum_30 double_sum_31
  double_sum_32 double_lit_8 double_int_2 double_lit_9 double_int_3 double_lit_10 double_int_4 double_lit_11 double_int_5 double_quot_11
  double_quot_12 double_quot_13 double_quot_14 double_lit_12 double_pow_1 double_prod_1 double_prod_2 double_prod_3 double_prod_4 double_lit_13
  double_pow_2 double_prod_5 double_prod_6 double_prod_7 double_prod_8 double_pow_3 double_prod_9 double_prod_10 double_prod_11 double_quot_15
  double_prod_12 double_prod_13 double_lit_14

lemmas double_eval =
  double_ops_def py_sum_def normalize_def double_arith

lemma d_pow_overflow: "d_pow cx_rho 2 = Inl OverflowError"
proof -
  have "((2::real) ^ 700) powi 2 = 2 ^ 1400"
    by (simp only: power_int_numeral power_mult[symmetric]) simp
  moreover have "(2::real) ^ 1024 \<le> 2 ^ 1400"
    by (rule power_increasing) simp_all
  ultimately have "2 ^ 1024 \<le> \<bar>((2::real) ^ 700) powi 2\<bar>" by simp
  from round_to_double_overflow[OF this] have "round_to_double (((2::real) ^ 700) powi 2) = PInf"
    by (simp only: zero_less_power_int zero_less_numeral zero_less_power if_True)
  moreover have "\<lfloor>2::real\<rfloor> = 2" by simp
  moreover have "(2::real) ^ 700 \<noteq> 0" by simp
  moreover have "round_to_double 2 = Fin 2"
    by (rule round_to_double_normal[where e = 1]) (simp_all add: round_half_even_def)
  then have "round_to_double (of_int 2) = Fin 2" "(2::real) \<noteq> 0"
    by simp_all
  ultimately show ?thesis
    by (simp only: d_pow_def cx_rho_def double.case if_False sum.case)
qed

section \<open>Properties of a composition on floats\<close>

lemma divide_loop_nonzero:
  assumes "s \<noteq> Fin 0"
  shows "\<exists>X1. divide_loop double_ops s X0 = Inr X1
           \<and> list_all2 (\<lambda>(k, v) (k', v'). k' = k \<and> d_div v s = Inr v') X0 X1"
proof (induction X0)
  case Nil
  then show ?case by simp
next
  case (Cons kv X0)
  obtain k v where kv: "kv = (k, v)" by (cases kv)
  from d_div_nonzero[OF assms] obtain q where q: "d_div v s = Inr q" by blast
  from Cons obtain X1 where "divide_loop double_ops s X0 = Inr X1"
    "list_all2 (\<lambda>(k, v) (k', v'). k' = k \<and> d_div v s = Inr v') X0 X1"
    by blast
  then show ?case
    by (simp add: kv q double_ops_def)
qed

lemma divide_loop_id:
  "\<forall>(k, v)\<in>set X1. is_double v \<and> (\<exists>r. v = Fin r) \<Longrightarrow>
     divide_loop double_ops (Fin 1) X1 = Inr X1"
  by (induction X1) (auto simp: double_ops_def is_double_def)

text \<open>
  C8, as amended. Let the sum of the mass fractions, as \<open>normalize\<close> adds them in doubles,
  be other than zero. Then \<open>normalize\<close> returns, and it stores under every key the quotient
  in doubles of the mass fraction by that sum. A second \<open>normalize\<close> leaves this mapping as
  it is when the stored mass fractions sum, as \<open>normalize\<close> adds them, to exactly 1.
\<close>

theorem normalize_idempotent_when_sum_one:
  assumes "py_sum double_ops (map snd X0) \<noteq> Fin 0"
  shows "\<exists>X1. normalize double_ops X0 = Inr X1
           \<and> list_all2 (\<lambda>(k, v) (k', v'). k' = k
                 \<and> d_div v (py_sum double_ops (map snd X0)) = Inr v') X0 X1
           \<and> (py_sum double_ops (map snd X1) = Fin 1 \<longrightarrow> normalize double_ops X1 = Inr X1)"
proof -
  let ?s = "py_sum double_ops (map snd X0)"
  from divide_loop_nonzero[OF assms, of X0] obtain X1 where
    X1: "divide_loop double_ops ?s X0 = Inr X1"
    and rel: "list_all2 (\<lambda>(k, v) (k', v'). k' = k \<and> d_div v ?s = Inr v') X0 X1"
    by blast
  have n1: "normalize double_ops X0 = Inr X1"
    by (simp add: normalize_def X1)
  have dbl: "is_double v'" if "(k', v') \<in> set X1" for k' v'
  proof -
    from that rel obtain kv where "(case kv of (k, v) \<Rightarrow> \<lambda>(k', v'). k' = k \<and> d_div v ?s = Inr v') (k', v')"
      by (auto simp: in_set_conv_nth list_all2_conv_all_nth)
    then obtain v where "d_div v ?s = Inr v'" by (cases kv) auto
    then show ?thesis by (rule d_div_is_double)
  qed
  have "normalize double_ops X1 = Inr X1" if one: "py_sum double_ops (map snd X1) = Fin 1"
  proof -
    from one have "foldl d_add (round_to_double 0) (map snd X1) = Fin 1"
      by (simp add: py_sum_def double_ops_def)
    from foldl_d_add_Fin[OF this] have fin: "\<forall>v\<in>snd ` set X1. \<exists>r. v = Fin r" by simp
    have "\<forall>(k, v)\<in>set X1. is_double v \<and> (\<exists>r. v = Fin r)"
    proof (clarify)
      fix k v assume m: "(k, v) \<in> set X1"
      with fin have "\<exists>r. v = Fin r" by force
      with dbl[OF m] show "is_double v \<and> (\<exists>r. v = Fin r)" ..
    qed
    from divide_loop_id[OF this] show ?thesis
      by (simp add: normalize_def one)
  qed
  with n1 rel show ?thesis by blast
qed

theorem normalize_idempotent_when_sum_one_witness:
  "py_sum double_ops (map snd ex_unnorm) = Fin 4
   \<and> py_sum double_ops (map snd ex_unnorm) \<noteq> Fin 0
   \<and> normalize double_ops ex_unnorm = Inr ex_quarters
   \<and> py_sum double_ops (map snd ex_quarters) = Fin 1
   \<and> normalize double_ops ex_quarters = Inr ex_quarters"
proof -
  have s4: "py_sum double_ops (map snd ex_unnorm) = Fin 4"
    and n: "normalize double_ops ex_unnorm = Inr ex_quarters"
    and o: "py_sum double_ops (map snd ex_quarters) = Fin 1"
    by (simp_all add: ex_unnorm_def ex_quarters_def double_eval
        del: d_add.simps d_mul.simps d_div.simps)
  from s4 have s: "py_sum double_ops (map snd ex_unnorm) \<noteq> Fin 0" by simp
  from normalize_idempotent_when_sum_one[OF s] n o have "normalize double_ops ex_quarters = Inr ex_quarters"
    by auto
  with s4 s n o show ?thesis by blast
qed

text \<open>
  On doubles C8 fails for the mass fractions 8, 9, 9, 9: their sum is 35, the first
  \<open>normalize\<close> stores the doubles nearest to 8/35 and 9/35, whose sum in doubles is
  \<open>1 - 1 / 2 ^ 53\<close>, and the second \<open>normalize\<close> stores other doubles.
\<close>

theorem normalize_twice_differs_on_doubles:
  "py_sum double_ops (map snd ex_8999) = Fin 35
   \<and> normalize double_ops ex_8999 = Inr ex_8999_once
   \<and> py_sum double_ops (map snd ex_8999_once) = Fin (1 - 1 / 2 ^ 53)
   \<and> normalize double_ops ex_8999_once = Inr ex_8999_twice
   \<and> ex_8999_twice \<noteq> ex_8999_once"
  by (simp add: ex_8999_def ex_8999_once_def ex_8999_twice_def double_eval
      del: d_add.simps d_mul.simps d_div.simps)

lemma map_of_map_key:
  "map_of (map (\<lambda>(k, v). (k, F k)) kvs) q = (if q \<in> fst ` set kvs then Some (F q) else None)"
  by (induction kvs) (auto simp: image_iff)

lemma solar_like_loop_map:
  "solar_like_loop ops nuc Zv rem Xd
     = map (\<lambda>(k, v). (k, if k = nuc_p nuc then fl_lit ops 0.7
                          else if nuc_raw nuc k = ''he4'' then fl_sub ops (fl_lit ops 0.3) Zv
                          else rem)) Xd"
  unfolding solar_like_loop_def by (auto intro!: map_cong)

lemma four_values_sum:
  assumes d: "distinct [k1, k2, k3, k4]" and s: "{k1, k2, k3, k4} = {p, h, a, b}"
    and F: "F p = Fin (3152519739159347 / 2 ^ 52)" "F h = Fin (5044031582654955 / 2 ^ 54)"
      "F a = Fin (5764607523034235 / 2 ^ 59)" "F b = Fin (5764607523034235 / 2 ^ 59)"
  shows "py_sum double_ops (map F [k1, k2, k3, k4]) = Fin 1"
proof -
  from s have k: "k1 = p \<or> k1 = h \<or> k1 = a \<or> k1 = b" "k2 = p \<or> k2 = h \<or> k2 = a \<or> k2 = b"
    "k3 = p \<or> k3 = h \<or> k3 = a \<or> k3 = b" "k4 = p \<or> k4 = h \<or> k4 = a \<or> k4 = b"
    by blast+
  from s have m: "p \<in> {k1, k2, k3, k4}" "h \<in> {k1, k2, k3, k4}"
    by blast+
  show ?thesis
    using k d m
    by (elim disjE; simp add: F double_eval del: d_add.simps d_mul.simps d_div.simps) 
qed

text \<open>
  C7, as amended. Let the keys of a composition be four nuclei: the proton, the nucleus
  \<open>h\<close> named \<^verbatim>\<open>he4\<close>, and two more, \<open>a\<close> and \<open>b\<close>. With \<^verbatim>\<open>Z = 0.02\<close>, \<^verbatim>\<open>num-2\<close> is 2 and
  \<^verbatim>\<open>rem\<close> is the double 0.02 / 2 = 0.01. The loop of \<open>set_solar_like\<close> stores the double 0.7
  for the proton, the double 0.3 - 0.02 for \<open>h\<close>, which is \<open>5044031582654955 / 2 ^ 54\<close>
  (0.27999999999999997), and 0.01 for \<open>a\<close> and for \<open>b\<close>. In every order of the keys the sum
  of these four doubles, as \<open>normalize\<close> adds them, is exactly 1, so that \<open>set_solar_like\<close>
  returns with the mass fractions that the loop stored, and they sum to 1.
\<close>

theorem set_solar_like_four_nuclei:
  assumes keys: "distinct (map fst Xd)" "set (map fst Xd) = {nuc_p nuc, h, a, b}"
    and he4: "nuc_raw nuc h = ''he4''" "h \<noteq> nuc_p nuc"
    and rest: "a \<noteq> nuc_p nuc" "nuc_raw nuc a \<noteq> ''he4''" "b \<noteq> nuc_p nuc" "nuc_raw nuc b \<noteq> ''he4''"
      "a \<noteq> b"
  shows "\<exists>pre. fl_int double_ops (int (length Xd) - 2) = Inr (Fin 2)
           \<and> fl_div double_ops (fl_lit double_ops 0.02) (Fin 2) = Inr (fl_lit double_ops 0.01)
           \<and> pre = solar_like_loop double_ops nuc (fl_lit double_ops 0.02) (fl_lit double_ops 0.01) Xd
           \<and> map fst pre = map fst Xd
           \<and> map_of pre (nuc_p nuc) = Some (fl_lit double_ops 0.7)
           \<and> map_of pre h = Some (fl_sub double_ops (fl_lit double_ops 0.3) (fl_lit double_ops 0.02))
           \<and> fl_sub double_ops (fl_lit double_ops 0.3) (fl_lit double_ops 0.02)
                 = Fin (5044031582654955 / 2 ^ 54)
           \<and> map_of pre a = Some (fl_lit double_ops 0.01)
           \<and> map_of pre b = Some (fl_lit double_ops 0.01)
           \<and> py_sum double_ops (map snd pre) = Fin 1
           \<and> set_solar_like double_ops nuc Xd (fl_lit double_ops 0.02) = Inr pre"
proof -
  let ?Z = "fl_lit double_ops 0.02" and ?rem = "fl_lit double_ops 0.01"
  let ?pre = "solar_like_loop double_ops nuc ?Z ?rem Xd"
  let ?F = "\<lambda>k. if k = nuc_p nuc then fl_lit double_ops 0.7
                 else if nuc_raw nuc k = ''he4'' then fl_sub double_ops (fl_lit double_ops 0.3) ?Z
                 else ?rem"
  have ha: "h \<noteq> a" and hb: "h \<noteq> b"
    using he4 rest by auto
  have "length (map fst Xd) = card (set (map fst Xd))"
    using keys(1) by (simp only: distinct_card)
  also have "\<dots> = 4"
    using he4 rest ha hb unfolding keys(2) by simp
  finally have len: "length Xd = 4" by simp
  then obtain e1 e2 e3 e4 where Xd: "Xd = [e1, e2, e3, e4]"
    by (auto simp: length_Suc_conv numeral_eq_Suc)
  have pre: "?pre = map (\<lambda>(k, v). (k, ?F k)) Xd"
    by (rule solar_like_loop_map)
  have fst: "map fst ?pre = map fst Xd"
    unfolding pre by (simp add: comp_def case_prod_beta)
  have "map snd (map (\<lambda>(k, v). (k, ?F k)) Xd) = map ?F (map fst Xd)"
    by (simp add: comp_def case_prod_beta)
  then have snd: "map snd ?pre = map ?F [fst e1, fst e2, fst e3, fst e4]"
    unfolding pre[symmetric] by (simp only: Xd list.map)
  have mem: "nuc_p nuc \<in> fst ` set Xd" "h \<in> fst ` set Xd" "a \<in> fst ` set Xd" "b \<in> fst ` set Xd"
    using keys(2) by auto
  have i: "fl_int double_ops (int (length Xd) - 2) = Inr (Fin 2)"
    by (simp add: len double_eval)
  have r: "fl_div double_ops ?Z (Fin 2) = Inr ?rem"
    by (simp add: double_eval del: d_div.simps)
  have B: "fl_sub double_ops (fl_lit double_ops 0.3) ?Z = Fin (5044031582654955 / 2 ^ 54)"
    by (simp add: double_eval)
  have vals: "map_of ?pre (nuc_p nuc) = Some (fl_lit double_ops 0.7)"
    "map_of ?pre h = Some (fl_sub double_ops (fl_lit double_ops 0.3) ?Z)"
    "map_of ?pre a = Some ?rem" "map_of ?pre b = Some ?rem"
    unfolding pre using mem he4 rest by (simp_all add: map_of_map_key)
  have F: "?F (nuc_p nuc) = Fin (3152519739159347 / 2 ^ 52)" "?F h = Fin (5044031582654955 / 2 ^ 54)"
    "?F a = Fin (5764607523034235 / 2 ^ 59)" "?F b = Fin (5764607523034235 / 2 ^ 59)"
    using he4 rest by (simp_all add: double_eval)
  have "distinct [fst e1, fst e2, fst e3, fst e4]" "{fst e1, fst e2, fst e3, fst e4} = {nuc_p nuc, h, a, b}"
    using keys unfolding Xd by simp_all
  from four_values_sum[of "fst e1" "fst e2" "fst e3" "fst e4" "nuc_p nuc" h a b ?F, OF this F]
  have s: "py_sum double_ops (map snd ?pre) = Fin 1"
    unfolding snd .
  have "is_double v \<and> (\<exists>r. v = Fin r)"
    if "v = fl_lit double_ops 0.7 \<or> v = fl_sub double_ops (fl_lit double_ops 0.3) ?Z \<or> v = ?rem"
    for v
  proof -
    have "is_double v"
      using that by (auto simp: double_ops_def round_to_double_is_double d_sub_is_double)
    moreover have "\<exists>r. v = Fin r"
      using that by (auto simp: double_eval)
    ultimately show ?thesis ..
  qed
  then have "is_double (?F k) \<and> (\<exists>r. ?F k = Fin r)" for k
    by presburger
  then have "\<forall>(k, v)\<in>set ?pre. is_double v \<and> (\<exists>r. v = Fin r)"
    unfolding pre by auto
  from divide_loop_id[OF this] have n: "normalize double_ops ?pre = Inr ?pre"
    by (simp only: normalize_def Let_def s)
  have ssl: "set_solar_like double_ops nuc Xd ?Z = Inr ?pre"
    by (simp only: set_solar_like_def Let_def i r n sum.case)
  from i r fst vals B s ssl show ?thesis by blast
qed

lemma ex_solar_like_loop:
  "solar_like_loop double_ops ex_nuc (fl_lit double_ops 0.02) (fl_lit double_ops 0.01) ex_small
     = ex_solar"
  by (simp add: solar_like_loop_def ex_small_def ex_solar_def ex_nuc_def ex_raw_def double_eval)

lemma ex_set_solar_like:
  "set_solar_like double_ops ex_nuc ex_small (fl_lit double_ops 0.02) = Inr ex_solar"
proof -
  have i: "fl_int double_ops (int (length ex_small) - 2) = Inr (Fin 2)"
    by (simp add: ex_small_def double_eval)
  have r: "fl_div double_ops (fl_lit double_ops 0.02) (Fin 2) = Inr (fl_lit double_ops 0.01)"
    by (simp add: double_eval del: d_div.simps)
  have n: "normalize double_ops ex_solar = Inr ex_solar"
    by (simp add: ex_solar_def double_eval del: d_add.simps d_div.simps)
  show ?thesis
    by (simp only: set_solar_like_def Let_def i r sum.case ex_solar_like_loop n)
qed

theorem set_solar_like_four_nuclei_witness:
  "distinct (map fst ex_small) \<and> set (map fst ex_small) = {nuc_p ex_nuc, 4, 12, 16}
   \<and> nuc_raw ex_nuc 4 = ''he4''
   \<and> solar_like_loop double_ops ex_nuc (fl_lit double_ops 0.02) (fl_lit double_ops 0.01) ex_small
       = ex_solar
   \<and> py_sum double_ops (map snd ex_solar) = Fin 1
   \<and> set_solar_like double_ops ex_nuc ex_small (fl_lit double_ops 0.02) = Inr ex_solar"
proof -
  have k: "distinct (map fst ex_small)" "set (map fst ex_small) = {nuc_p ex_nuc, 4, 12, 16}"
    by (auto simp: ex_small_def ex_nuc_def)
  have h: "nuc_raw ex_nuc 4 = ''he4''" "4 \<noteq> nuc_p ex_nuc"
    by (simp_all add: ex_nuc_def ex_raw_def)
  have r: "12 \<noteq> nuc_p ex_nuc" "nuc_raw ex_nuc 12 \<noteq> ''he4''" "16 \<noteq> nuc_p ex_nuc"
    "nuc_raw ex_nuc 16 \<noteq> ''he4''" "(12::nat) \<noteq> 16"
    by (simp_all add: ex_nuc_def ex_raw_def)
  from set_solar_like_four_nuclei[OF k h r] show ?thesis
    unfolding ex_solar_like_loop using k h(1) by blast
qed

text \<open>
  C7 fails where it says that 0.3 - 0.02 is 0.28: the double that the loop stores for
  \<^verbatim>\<open>he4\<close>, and that \<open>set_solar_like\<close> leaves there, is \<open>5044031582654955 / 2 ^ 54\<close>, and the
  double 0.28 is \<open>5044031582654956 / 2 ^ 54\<close>.
\<close>

theorem solar_like_he4_below_028:
  "map_of (solar_like_loop double_ops ex_nuc (fl_lit double_ops 0.02) (fl_lit double_ops 0.01) ex_small) 4
     = Some (Fin (5044031582654955 / 2 ^ 54))
   \<and> fl_lit double_ops 0.28 = Fin (5044031582654956 / 2 ^ 54)
   \<and> fl_sub double_ops (fl_lit double_ops 0.3) (fl_lit double_ops 0.02) \<noteq> fl_lit double_ops 0.28
   \<and> (\<exists>Xd'. set_solar_like double_ops ex_nuc ex_small (fl_lit double_ops 0.02) = Inr Xd'
         \<and> map_of Xd' 4 = Some (Fin (5044031582654955 / 2 ^ 54))
         \<and> map_of Xd' 4 \<noteq> Some (fl_lit double_ops 0.28))"
  unfolding ex_solar_like_loop ex_set_solar_like
  by (simp add: ex_solar_def double_eval)

section \<open>Properties of the evaluation in a store\<close>

lemma molar_loop_frame:
  "n \<le> m \<Longrightarrow> length (snd (molar_loop ops nuc m kvs st)) = length st
     \<and> take n (snd (molar_loop ops nuc m kvs st)) = take n st"
proof (induction kvs arbitrary: st)
  case Nil
  then show ?case by simp
next
  case (Cons kv kvs)
  obtain k v where kv: "kv = (k, v)" by (cases kv)
  show ?case
    unfolding kv using Cons.IH[OF Cons.prems] Cons.prems
    by (auto split: sum.splits option.splits py_value.splits)
qed

lemma rates_loop_frame:
  "n \<le> rvals \<Longrightarrow> length (snd (rates_loop ops ev rho T rvals ys rs st)) = length st
     \<and> take n (snd (rates_loop ops ev rho T rvals ys rs st)) = take n st"
proof (induction rs arbitrary: st)
  case Nil
  then show ?case by simp
next
  case (Cons r rs)
  show ?case
    using Cons.IH[OF Cons.prems] Cons.prems
    by (auto simp: Let_def split: sum.splits option.splits py_value.splits)
qed

lemma get_molar_frame:
  "take (length st) (snd (Composition_get_molar ops nuc st c)) = st
   \<and> length st \<le> length (snd (Composition_get_molar ops nuc st c))
   \<and> (\<forall>a. fst (Composition_get_molar ops nuc st c) = Inr a \<longrightarrow> a = length st)"
proof -
  have "take (length st) st2 = st \<and> length st \<le> length st2"
    if "molar_loop ops nuc (length st) items (st @ [Dict_nuclei []]) = (r, st2)" for items r st2
    using molar_loop_frame[of "length st" "length st" ops nuc items "st @ [Dict_nuclei []]"] that
    by simp
  then show ?thesis
    by (auto simp: Composition_get_molar_def Let_def
        split: option.splits py_value.splits prod.splits)
qed

lemma evaluate_rates_take:
  "take (length st) (snd (RateCollection_evaluate_rates ops nuc ev st self rho T c)) = st"
proof -
  let ?st1 = "st @ [Dict_rates []]"
  obtain res st2 where g: "Composition_get_molar ops nuc ?st1 c = (res, st2)"
    by (cases "Composition_get_molar ops nuc ?st1 c")
  from get_molar_frame[of ?st1 ops nuc c] g
  have t2: "take (Suc (length st)) st2 = ?st1" and l2: "Suc (length st) \<le> length st2"
    by simp_all
  have "take (length st) (take (Suc (length st)) st2) = take (length st) ?st1"
    by (simp only: t2)
  then have s2: "take (length st) st2 = st" by (simp add: min_def)
  have s3: "take (length st) st3 = st"
    if "rates_loop ops ev rho T (length st) ys rs st2 = (r, st3)" for ys rs r st3
    using rates_loop_frame[of "length st" "length st" ops ev rho T ys rs st2] s2 that by simp
  show ?thesis
    using s2 s3
    by (auto simp: RateCollection_evaluate_rates_def Let_def g
        split: sum.splits option.splits py_value.splits prod.splits)
qed

lemma deref_take: "take (length st) st' = st \<Longrightarrow> deref st a = Some v \<Longrightarrow> deref st' a = Some v"
proof -
  assume t: "take (length st) st' = st" and d: "deref st a = Some v"
  from d have a: "a < length st" and v: "st ! a = v"
    by (auto simp: deref_def split: if_splits)
  from t have "length st \<le> length st'"
    by (metis length_take min.cobounded2 min.commute)
  moreover from t a have "st' ! a = st ! a"
    by (metis nth_take)
  ultimately show ?thesis using a v by (simp add: deref_def)
qed

lemmas store_eval =
  RateCollection_evaluate_rates_def Composition_get_molar_def deref_def Let_def double_eval

lemma ex_get_molar:
  "Composition_get_molar double_ops ex_nuc ex_store 1 = (Inr 3, ex_store @ [Dict_nuclei ex_molar])"
  by (simp add: store_eval ex_store_def ex_items_def ex_molar_def ex_nuc_def
      del: d_add.simps d_mul.simps d_div.simps)

lemma ex_evaluate_rates:
  "RateCollection_evaluate_rates double_ops ex_nuc ex_eval ex_store 0 (Fin 10) (Fin 1) 1
     = (Inr 3, ex_store @ [Dict_rates ex_rvals, Dict_nuclei ex_molar])"
  by (simp add: store_eval ex_store_def ex_items_def ex_molar_def ex_nuc_def ex_rvals_def ex_rc_def
      ex_pp_def ex_cag_def ex_tab_def ex_eval_def
      del: d_add.simps d_mul.simps d_div.simps)

text \<open>
  C10. Whatever the store, the arguments and the arithmetic, and whether the call returns
  or raises, \<open>evaluate_rates\<close> and \<open>get_molar\<close> leave every object that existed before the
  call as it was: the store after the call begins with the store before it. So the
  collection keeps its rates, \<open>unique_nuclei\<close>, \<open>nuclei_consumed\<close>, \<open>nuclei_produced\<close>,
  \<open>reaclib_rates\<close> and \<open>tabular_rates\<close>, and the composition keeps its mass fractions. The
  mapping that \<open>get_molar\<close> returns is at an address that held no object before the call.
\<close>

theorem evaluate_rates_frame:
  "take (length st) (snd (RateCollection_evaluate_rates ops nuc ev st self rho T composition)) = st
   \<and> take (length st) (snd (Composition_get_molar ops nuc st composition)) = st
   \<and> (\<forall>a v. deref st a = Some v \<longrightarrow>
         deref (snd (RateCollection_evaluate_rates ops nuc ev st self rho T composition)) a = Some v
         \<and> deref (snd (Composition_get_molar ops nuc st composition)) a = Some v)
   \<and> (\<forall>a. fst (Composition_get_molar ops nuc st composition) = Inr a \<longrightarrow> deref st a = None)"
proof -
  have 1: "take (length st) (snd (RateCollection_evaluate_rates ops nuc ev st self rho T composition)) = st"
    by (rule evaluate_rates_take)
  have 2: "take (length st) (snd (Composition_get_molar ops nuc st composition)) = st"
    using get_molar_frame[of st ops nuc composition] by simp
  have 3: "deref st a = None" if "fst (Composition_get_molar ops nuc st composition) = Inr a" for a
    using get_molar_frame[of st ops nuc composition] that by (simp add: deref_def)
  from 1 2 3 deref_take[OF 1] deref_take[OF 2] show ?thesis by blast
qed

theorem evaluate_rates_frame_witness:
  "deref ex_store 0 = Some (RateCollection_val ex_rc)
   \<and> deref ex_store 1 = Some (Composition_val 2) \<and> deref ex_store 2 = Some (Dict_nuclei ex_items)
   \<and> fst (RateCollection_evaluate_rates double_ops ex_nuc ex_eval ex_store 0 (Fin 10) (Fin 1) 1) = Inr 3
   \<and> deref (snd (RateCollection_evaluate_rates double_ops ex_nuc ex_eval ex_store 0 (Fin 10) (Fin 1) 1)) 0
       = Some (RateCollection_val ex_rc)
   \<and> deref (snd (RateCollection_evaluate_rates double_ops ex_nuc ex_eval ex_store 0 (Fin 10) (Fin 1) 1)) 1
       = Some (Composition_val 2)
   \<and> deref (snd (RateCollection_evaluate_rates double_ops ex_nuc ex_eval ex_store 0 (Fin 10) (Fin 1) 1)) 2
       = Some (Dict_nuclei ex_items)
   \<and> fst (Composition_get_molar double_ops ex_nuc ex_store 1) = Inr 3
   \<and> deref ex_store 3 = None
   \<and> deref (snd (Composition_get_molar double_ops ex_nuc ex_store 1)) 2 = Some (Dict_nuclei ex_items)
   \<and> deref (snd (Composition_get_molar double_ops ex_nuc ex_store 1)) 3 = Some (Dict_nuclei ex_molar)"
proof -
  have 0: "deref ex_store 0 = Some (RateCollection_val ex_rc)"
    and 1: "deref ex_store 1 = Some (Composition_val 2)"
    and 2: "deref ex_store 2 = Some (Dict_nuclei ex_items)"
    by (simp_all add: deref_def ex_store_def)
  have g: "fst (Composition_get_molar double_ops ex_nuc ex_store 1) = Inr 3"
    and e: "fst (RateCollection_evaluate_rates double_ops ex_nuc ex_eval ex_store 0 (Fin 10) (Fin 1) 1)
              = Inr 3"
    and m: "deref (snd (Composition_get_molar double_ops ex_nuc ex_store 1)) 3
              = Some (Dict_nuclei ex_molar)"
    unfolding ex_get_molar ex_evaluate_rates
    by (simp_all add: deref_def ex_store_def)
  note f = evaluate_rates_frame[of ex_store double_ops ex_nuc ex_eval 0 "Fin 10" "Fin 1" 1]
  from f 0 1 2 g e m show ?thesis by blast
qed

lemma getitems_Inr:
  "\<forall>q\<in>set qs. map_of d q = Some (f q) \<Longrightarrow> getitems d qs = Inr (map f qs)"
  by (induction qs) auto

lemma deref_update:
  "deref (st[m := v]) a = (if a = m \<and> m < length st then Some v else deref st a)"
  by (simp add: deref_def)

lemma deref_length: "deref st a = Some v \<Longrightarrow> a < length st"
  by (simp add: deref_def split: if_splits)

lemma molar_loop_Inr:
  assumes "\<forall>(k, v)\<in>set kvs. \<exists>A. fl_int ops (int (nuc_A nuc k)) = Inr A \<and> fl_div ops v A = Inr (y k)"
    and "deref st m = Some (Dict_nuclei d)"
  shows "\<exists>d'. molar_loop ops nuc m kvs st = (None, st[m := Dict_nuclei d'])
           \<and> (\<forall>q. map_of d' q = (if q \<in> fst ` set kvs then Some (y q) else map_of d q))"
  using assms
proof (induction kvs arbitrary: st d)
  case Nil
  then have "st ! m = Dict_nuclei d"
    by (simp add: deref_def split: if_splits)
  then have "st = st[m := Dict_nuclei d]"
    using list_update_id[of st m] by simp
  then have "molar_loop ops nuc m [] st = (None, st[m := Dict_nuclei d])
      \<and> (\<forall>q. map_of d q = (if q \<in> fst ` set [] then Some (y q) else map_of d q))"
    by simp
  then show ?case by (rule exI)
next
  case (Cons kv kvs)
  obtain k v where kv: "kv = (k, v)" by (cases kv)
  from Cons.prems(1) kv obtain A where A: "fl_int ops (int (nuc_A nuc k)) = Inr A"
    "fl_div ops v A = Inr (y k)"
    by auto
  let ?d = "AList.update k (y k) d"
  let ?st = "st[m := Dict_nuclei ?d]"
  have step: "molar_loop ops nuc m (kv # kvs) st = molar_loop ops nuc m kvs ?st"
    by (simp add: kv A Cons.prems(2))
  have m: "deref ?st m = Some (Dict_nuclei ?d)"
    using deref_length[OF Cons.prems(2)] by (simp add: deref_update)
  from Cons.prems(1) have
    "\<forall>(k, v)\<in>set kvs. \<exists>A. fl_int ops (int (nuc_A nuc k)) = Inr A \<and> fl_div ops v A = Inr (y k)"
    by simp
  from Cons.IH[OF this m] obtain d' where
    d': "molar_loop ops nuc m kvs ?st = (None, ?st[m := Dict_nuclei d'])"
      "\<forall>q. map_of d' q = (if q \<in> fst ` set kvs then Some (y q) else map_of ?d q)"
    by blast
  have "?st[m := Dict_nuclei d'] = st[m := Dict_nuclei d']" by simp
  with d'(1) step have "molar_loop ops nuc m (kv # kvs) st = (None, st[m := Dict_nuclei d'])"
    by (simp only:)
  moreover have "\<forall>q. map_of d' q = (if q \<in> fst ` set (kv # kvs) then Some (y q) else map_of d q)"
    using d'(2) by (auto simp: kv update_conv')
  ultimately show ?case by blast
qed

lemma reduce_fl_mul_Inr:
  "ys \<noteq> [] \<Longrightarrow> reduce_fl_mul ops ys = Inr (foldl (fl_mul ops) (hd ys) (tl ys))"
  by (cases ys) simp_all

lemma rates_loop_Inr:
  assumes "\<forall>r\<in>set rs. reactants r \<noteq> [] \<and> fl_pow ops rho (dens_exp r) = Inr (pw r)
             \<and> (\<forall>q\<in>set (reactants r). map_of d q = Some (y q))"
    and "deref st ys = Some (Dict_nuclei d)" and "deref st rvals = Some (Dict_rates acc)"
  shows "\<exists>rv. rates_loop ops ev rho T rvals ys rs st = (None, st[rvals := Dict_rates rv])
           \<and> fst ` set rv = fst ` set acc \<union> set rs
           \<and> (\<forall>r. map_of rv r
                  = (if r \<in> set rs
                     then Some (fl_mul ops
                                  (foldl (fl_mul ops) (y (hd (reactants r))) (map y (tl (reactants r))))
                                  (fl_mul ops (fl_mul ops (fl_lit ops (prefactor r)) (pw r)) (ev r T)))
                     else map_of acc r))"
  using assms
proof (induction rs arbitrary: st acc)
  case Nil
  let ?V = "\<lambda>r. fl_mul ops
                   (foldl (fl_mul ops) (y (hd (reactants r))) (map y (tl (reactants r))))
                   (fl_mul ops (fl_mul ops (fl_lit ops (prefactor r)) (pw r)) (ev r T))"
  from Nil have "st ! rvals = Dict_rates acc"
    by (simp add: deref_def split: if_splits)
  then have "st = st[rvals := Dict_rates acc]"
    using list_update_id[of st rvals] by simp
  then have "rates_loop ops ev rho T rvals ys [] st = (None, st[rvals := Dict_rates acc])
      \<and> fst ` set acc = fst ` set acc \<union> set []
      \<and> (\<forall>r. map_of acc r = (if r \<in> set [] then Some (?V r) else map_of acc r))"
    by simp
  then show ?case by (rule exI)
next
  case (Cons r rs)
  let ?V = "\<lambda>r. fl_mul ops
                   (foldl (fl_mul ops) (y (hd (reactants r))) (map y (tl (reactants r))))
                   (fl_mul ops (fl_mul ops (fl_lit ops (prefactor r)) (pw r)) (ev r T))"
  let ?acc = "AList.update r (?V r) acc"
  let ?st = "st[rvals := Dict_rates ?acc]"
  from Cons.prems(1) have r: "reactants r \<noteq> []" "fl_pow ops rho (dens_exp r) = Inr (pw r)"
    "\<forall>q\<in>set (reactants r). map_of d q = Some (y q)"
    by simp_all
  have ne: "ys \<noteq> rvals"
    using Cons.prems(2,3) by auto
  have hdtl: "foldl (fl_mul ops) (hd (map y (reactants r))) (tl (map y (reactants r)))
                = foldl (fl_mul ops) (y (hd (reactants r))) (map y (tl (reactants r)))"
    using r(1) by (cases "reactants r") simp_all
  have step: "rates_loop ops ev rho T rvals ys (r # rs) st = rates_loop ops ev rho T rvals ys rs ?st"
    using r(1)
    by (simp add: r(2) Cons.prems(2,3) getitems_Inr[OF r(3)] reduce_fl_mul_Inr hdtl Let_def)
  have 2: "deref ?st ys = Some (Dict_nuclei d)"
    using Cons.prems(2) ne by (simp add: deref_update)
  have 3: "deref ?st rvals = Some (Dict_rates ?acc)"
    using deref_length[OF Cons.prems(3)] by (simp add: deref_update)
  from Cons.prems(1) have "\<forall>r\<in>set rs. reactants r \<noteq> [] \<and> fl_pow ops rho (dens_exp r) = Inr (pw r)
             \<and> (\<forall>q\<in>set (reactants r). map_of d q = Some (y q))"
    by simp
  from Cons.IH[OF this 2 3] obtain rv where
    rv: "rates_loop ops ev rho T rvals ys rs ?st = (None, ?st[rvals := Dict_rates rv])"
      "fst ` set rv = fst ` set ?acc \<union> set rs"
      "\<forall>r'. map_of rv r' = (if r' \<in> set rs then Some (?V r') else map_of ?acc r')"
    by blast
  have "?st[rvals := Dict_rates rv] = st[rvals := Dict_rates rv]" by simp
  with rv(1) step have
    "rates_loop ops ev rho T rvals ys (r # rs) st = (None, st[rvals := Dict_rates rv])"
    by (simp only:)
  moreover have "fst ` set rv = fst ` set acc \<union> set (r # rs)"
    using rv(2) by (auto simp: dom_update)
  moreover have "\<forall>r'. map_of rv r' = (if r' \<in> set (r # rs) then Some (?V r') else map_of acc r')"
    using rv(3) by (auto simp: update_conv')
  ultimately show ?case by blast
qed

text \<open>
  C1, as amended. Let the store hold the collection and the composition, let every rate
  of the collection have at least one reactant, and let the composition have a mass
  fraction for every reactant. Let \<^verbatim>\<open>rho ** r.dens_exp\<close> raise for no rate \<open>r\<close> and have the
  value \<open>pw r\<close>, and let \<^verbatim>\<open>v / k.A\<close> raise for no item \<open>(k, v)\<close> of the composition and have
  the value \<open>y k\<close>, the molar fraction of \<open>k\<close>. Then \<open>evaluate_rates\<close> returns a mapping whose
  keys are the rates of the collection, and it maps each rate \<open>r\<close> to \<^verbatim>\<open>yfac * val\<close> in the
  arithmetic of floats, where \<^verbatim>\<open>val\<close> is \<^verbatim>\<open>(r.prefactor * rho ** r.dens_exp) * r.eval(T)\<close>
  and \<^verbatim>\<open>yfac\<close> is the product, from left to right, of the molar fractions of the reactants
  of \<open>r\<close>, one factor for every occurrence of a reactant.
\<close>

theorem evaluate_rates_value:
  assumes self: "deref st self = Some (RateCollection_val rc)"
    and comp: "deref st composition = Some (Composition_val x)"
      "deref st x = Some (Dict_nuclei items)"
    and cover: "\<forall>r\<in>set (rates rc). set (reactants r) \<subseteq> fst ` set items"
    and nonempty: "\<forall>r\<in>set (rates rc). reactants r \<noteq> []"
    and pow: "\<forall>r\<in>set (rates rc). fl_pow ops rho (dens_exp r) = Inr (pw r)"
    and molar: "\<forall>(k, v)\<in>set items.
                  \<exists>A. fl_int ops (int (nuc_A nuc k)) = Inr A \<and> fl_div ops v A = Inr (y k)"
  shows "\<exists>rvals st' rv.
           RateCollection_evaluate_rates ops nuc ev st self rho T composition = (Inr rvals, st')
           \<and> deref st' rvals = Some (Dict_rates rv)
           \<and> fst ` set rv = set (rates rc)
           \<and> (\<forall>r\<in>set (rates rc).
                 map_of rv r
                   = Some (fl_mul ops
                             (foldl (fl_mul ops) (y (hd (reactants r))) (map y (tl (reactants r))))
                             (fl_mul ops (fl_mul ops (fl_lit ops (prefactor r)) (pw r)) (ev r T))))"
proof -
  let ?a = "length st"
  let ?st1 = "st @ [Dict_rates []]"
  let ?b = "Suc (length st)"
  let ?st1' = "st @ [Dict_rates [], Dict_nuclei []]"
  have lt: "self < ?a" "composition < ?a" "x < ?a"
    using self comp by (auto dest: deref_length)
  have d1: "deref ?st1 composition = Some (Composition_val x)"
    "deref ?st1 x = Some (Dict_nuclei items)"
    using comp lt by (simp_all add: deref_def nth_append)
  have m0: "deref ?st1' ?b = Some (Dict_nuclei [])"
    by (simp add: deref_def nth_append)
  from molar_loop_Inr[OF molar m0] have
    "\<exists>d. molar_loop ops nuc ?b items ?st1' = (None, ?st1'[?b := Dict_nuclei d])
       \<and> (\<forall>q\<in>fst ` set items. map_of d q = Some (y q))"
    by (elim exE conjE) (rule exI, rule conjI, assumption, simp)
  then obtain d where
    d: "molar_loop ops nuc ?b items ?st1' = (None, ?st1'[?b := Dict_nuclei d])"
      "\<forall>q\<in>fst ` set items. map_of d q = Some (y q)"
    by blast
  let ?st2 = "?st1'[?b := Dict_nuclei d]"
  have "?st1 @ [Dict_nuclei []] = ?st1'" by simp
  with d(1) have "molar_loop ops nuc (length ?st1) items (?st1 @ [Dict_nuclei []]) = (None, ?st2)"
    by simp
  then have gm: "Composition_get_molar ops nuc ?st1 composition = (Inr ?b, ?st2)"
    by (simp add: Composition_get_molar_def d1 Let_def del: append.simps append_assoc)
  have s2: "deref ?st2 self = Some (RateCollection_val rc)"
    using self lt by (simp add: deref_def nth_append)
  have ys: "deref ?st2 ?b = Some (Dict_nuclei d)"
    by (simp add: deref_def)
  have rvs: "deref ?st2 ?a = Some (Dict_rates [])"
    by (simp add: deref_def nth_append)
  have "\<forall>r\<in>set (rates rc). reactants r \<noteq> [] \<and> fl_pow ops rho (dens_exp r) = Inr (pw r)
             \<and> (\<forall>q\<in>set (reactants r). map_of d q = Some (y q))"
    using cover nonempty pow d(2) by blast
  from rates_loop_Inr[OF this ys rvs, of ev T] have
    "\<exists>rv. rates_loop ops ev rho T ?a ?b (rates rc) ?st2 = (None, ?st2[?a := Dict_rates rv])
       \<and> fst ` set rv = set (rates rc)
       \<and> (\<forall>r\<in>set (rates rc). map_of rv r
             = Some (fl_mul ops
                       (foldl (fl_mul ops) (y (hd (reactants r))) (map y (tl (reactants r))))
                       (fl_mul ops (fl_mul ops (fl_lit ops (prefactor r)) (pw r)) (ev r T))))"
    by auto
  then obtain rv where
    rv: "rates_loop ops ev rho T ?a ?b (rates rc) ?st2 = (None, ?st2[?a := Dict_rates rv])"
      "fst ` set rv = set (rates rc)"
      "\<forall>r\<in>set (rates rc). map_of rv r
         = Some (fl_mul ops
                   (foldl (fl_mul ops) (y (hd (reactants r))) (map y (tl (reactants r))))
                   (fl_mul ops (fl_mul ops (fl_lit ops (prefactor r)) (pw r)) (ev r T)))"
    by blast
  let ?st3 = "?st2[?a := Dict_rates rv]"
  have ev: "RateCollection_evaluate_rates ops nuc ev st self rho T composition = (Inr ?a, ?st3)"
    by (simp add: RateCollection_evaluate_rates_def Let_def gm s2 rv(1))
  have "deref ?st3 ?a = Some (Dict_rates rv)"
    by (simp add: deref_def)
  with ev rv(2,3) show ?thesis by auto
qed

theorem evaluate_rates_value_witness:
  "deref ex_store 0 = Some (RateCollection_val ex_rc)
   \<and> deref ex_store 1 = Some (Composition_val 2) \<and> deref ex_store 2 = Some (Dict_nuclei ex_items)
   \<and> (\<exists>st' rv. RateCollection_evaluate_rates double_ops ex_nuc ex_eval ex_store 0 (Fin 10) (Fin 1) 1
                    = (Inr 3, st')
         \<and> deref st' 3 = Some (Dict_rates rv)
         \<and> fst ` set rv = set (rates ex_rc)
         \<and> map_of rv ex_pp = Some (Fin 75))"
proof -
  let ?pw = "\<lambda>r::nat Rate. if dens_exp r = 2 then Fin 100 else if dens_exp r = 1 then Fin 10 else Fin 1"
  let ?y = "\<lambda>k::nat. if k = 1 then Fin (1 / 2) else if k = 4 then Fin (1 / 16)
                      else if k = 12 then Fin (1 / 64) else Fin (1 / 256)"
  have 0: "deref ex_store 0 = Some (RateCollection_val ex_rc)"
    and 1: "deref ex_store 1 = Some (Composition_val 2)"
    and 2: "deref ex_store 2 = Some (Dict_nuclei ex_items)"
    by (simp_all add: deref_def ex_store_def)
  have cover: "\<forall>r\<in>set (rates ex_rc). set (reactants r) \<subseteq> fst ` set ex_items"
    by (simp add: ex_rc_def ex_pp_def ex_cag_def ex_tab_def ex_items_def)
  have nonempty: "\<forall>r\<in>set (rates ex_rc). reactants r \<noteq> []"
    by (simp add: ex_rc_def ex_pp_def ex_cag_def ex_tab_def)
  have pow: "\<forall>r\<in>set (rates ex_rc). fl_pow double_ops (Fin 10) (dens_exp r) = Inr (?pw r)"
    by (simp add: ex_rc_def ex_pp_def ex_cag_def ex_tab_def double_eval)
  have molar: "\<forall>(k, v)\<in>set ex_items.
                 \<exists>A. fl_int double_ops (int (nuc_A ex_nuc k)) = Inr A \<and> fl_div double_ops v A = Inr (?y k)"
    by (simp add: ex_items_def ex_nuc_def double_eval del: d_div.simps)
  from evaluate_rates_value[OF 0 1 2 cover nonempty pow molar, of ex_eval "Fin 1"] obtain rvals st' rv where
    rv: "RateCollection_evaluate_rates double_ops ex_nuc ex_eval ex_store 0 (Fin 10) (Fin 1) 1
           = (Inr rvals, st')"
      "deref st' rvals = Some (Dict_rates rv)"
      "fst ` set rv = set (rates ex_rc)"
      "\<forall>r\<in>set (rates ex_rc).
         map_of rv r
           = Some (fl_mul double_ops
                     (foldl (fl_mul double_ops) (?y (hd (reactants r))) (map ?y (tl (reactants r))))
                     (fl_mul double_ops (fl_mul double_ops (fl_lit double_ops (prefactor r)) (?pw r))
                        (ex_eval r (Fin 1))))"
    by blast
  have "ex_pp \<in> set (rates ex_rc)" by (simp add: ex_rc_def)
  with rv(4) have "map_of rv ex_pp = Some (Fin 75)"
    by (simp add: ex_pp_def ex_eval_def double_eval del: d_mul.simps)
  moreover from rv(1) have "rvals = 3"
    unfolding ex_evaluate_rates by simp
  ultimately show ?thesis using 0 1 2 rv(1,2,3) by blast
qed

text \<open>
  C1 fails on these inputs, where the composition has a mass fraction for every reactant.
  For a rate without reactants \<^verbatim>\<open>functools.reduce\<close> raises \<^verbatim>\<open>TypeError\<close>; for the density 0
  and a negative density exponent \<^verbatim>\<open>**\<close> raises \<^verbatim>\<open>ZeroDivisionError\<close>; for the density
  \<open>2 ^ 700\<close> and the density exponent 2 it raises \<^verbatim>\<open>OverflowError\<close>. For a proton of mass
  fraction 0.1 and a rate p \<open>\<rightarrow>\<close> d that evaluates to 0.1, the value of the rate is the double
  \<open>1441151880758559 / 2 ^ 57\<close> (0.010000000000000002), which is not the product of the
  prefactor, the power of the density, the value of \<^verbatim>\<open>eval\<close> and the molar fraction.
\<close>

theorem evaluate_rates_raises_or_rounds:
  "RateCollection_init [cx_noreactant] = Inr cx_noreactant_rc
   \<and> RateCollection_init [cx_negexp] = Inr cx_negexp_rc
   \<and> RateCollection_init ex_rates = Inr ex_rc
   \<and> RateCollection_init [cx_decay] = Inr cx_decay_rc
   \<and> set (concat (map reactants (rates cx_noreactant_rc))) \<subseteq> fst ` set ex_items
   \<and> fst (RateCollection_evaluate_rates double_ops ex_nuc ex_eval
            [RateCollection_val cx_noreactant_rc, Composition_val 2, Dict_nuclei ex_items]
            0 (Fin 10) (Fin 1) 1) = Inl TypeError
   \<and> set (concat (map reactants (rates cx_negexp_rc))) \<subseteq> fst ` set ex_items
   \<and> fst (RateCollection_evaluate_rates double_ops ex_nuc ex_eval
            [RateCollection_val cx_negexp_rc, Composition_val 2, Dict_nuclei ex_items]
            0 (Fin 0) (Fin 1) 1) = Inl ZeroDivisionError
   \<and> set (concat (map reactants (rates ex_rc))) \<subseteq> fst ` set ex_items
   \<and> fst (RateCollection_evaluate_rates double_ops ex_nuc ex_eval ex_store 0 cx_rho (Fin 1) 1)
       = Inl OverflowError
   \<and> set (concat (map reactants (rates cx_decay_rc))) \<subseteq> fst ` set cx_items
   \<and> RateCollection_evaluate_rates double_ops ex_nuc cx_eval
         [RateCollection_val cx_decay_rc, Composition_val 2, Dict_nuclei cx_items] 0 (Fin 10) (Fin 1) 1
       = (Inr 3, [RateCollection_val cx_decay_rc, Composition_val 2, Dict_nuclei cx_items,
                  Dict_rates [(cx_decay, Fin (1441151880758559 / 2 ^ 57))], Dict_nuclei cx_items])
   \<and> (1441151880758559 / 2 ^ 57 :: real)
       \<noteq> prefactor cx_decay * 10 powi dens_exp cx_decay * (3602879701896397 / 2 ^ 55)
           * (3602879701896397 / 2 ^ 55 / real (nuc_A ex_nuc 1))"
proof -
  have "RateCollection_init [cx_noreactant] = Inr cx_noreactant_rc"
    "RateCollection_init [cx_negexp] = Inr cx_negexp_rc"
    "RateCollection_init [cx_decay] = Inr cx_decay_rc"
    by code_simp+
  moreover have "set (concat (map reactants (rates cx_noreactant_rc))) \<subseteq> fst ` set ex_items"
    "set (concat (map reactants (rates cx_negexp_rc))) \<subseteq> fst ` set ex_items"
    "set (concat (map reactants (rates ex_rc))) \<subseteq> fst ` set ex_items"
    "set (concat (map reactants (rates cx_decay_rc))) \<subseteq> fst ` set cx_items"
    by (simp_all add: cx_noreactant_rc_def cx_noreactant_def cx_negexp_rc_def cx_negexp_def
        ex_rc_def ex_pp_def ex_cag_def ex_tab_def ex_items_def cx_items_def cx_decay_rc_def
        cx_decay_def)
  moreover have
    "fst (RateCollection_evaluate_rates double_ops ex_nuc ex_eval
            [RateCollection_val cx_noreactant_rc, Composition_val 2, Dict_nuclei ex_items]
            0 (Fin 10) (Fin 1) 1) = Inl TypeError"
    by (simp add: store_eval ex_items_def ex_nuc_def cx_noreactant_rc_def cx_noreactant_def
        ex_eval_def del: d_add.simps d_mul.simps d_div.simps)
  moreover have
    "fst (RateCollection_evaluate_rates double_ops ex_nuc ex_eval
            [RateCollection_val cx_negexp_rc, Composition_val 2, Dict_nuclei ex_items]
            0 (Fin 0) (Fin 1) 1) = Inl ZeroDivisionError"
    by (simp add: store_eval ex_items_def ex_nuc_def cx_negexp_rc_def cx_negexp_def
        ex_eval_def d_pow_def del: d_add.simps d_mul.simps d_div.simps)
  moreover have
    "fst (RateCollection_evaluate_rates double_ops ex_nuc ex_eval ex_store 0 cx_rho (Fin 1) 1)
       = Inl OverflowError"
    by (simp add: store_eval ex_store_def ex_items_def ex_nuc_def ex_rc_def ex_pp_def ex_cag_def
        ex_tab_def ex_eval_def d_pow_overflow del: d_add.simps d_mul.simps d_div.simps)
  moreover have
    "RateCollection_evaluate_rates double_ops ex_nuc cx_eval
         [RateCollection_val cx_decay_rc, Composition_val 2, Dict_nuclei cx_items] 0 (Fin 10) (Fin 1) 1
       = (Inr 3, [RateCollection_val cx_decay_rc, Composition_val 2, Dict_nuclei cx_items,
                  Dict_rates [(cx_decay, Fin (1441151880758559 / 2 ^ 57))], Dict_nuclei cx_items])"
    by (simp add: store_eval cx_items_def ex_nuc_def cx_decay_rc_def cx_decay_def
        cx_eval_def del: d_add.simps d_mul.simps d_div.simps)
  moreover have "(1441151880758559 / 2 ^ 57 :: real)
       \<noteq> prefactor cx_decay * 10 powi dens_exp cx_decay * (3602879701896397 / 2 ^ 55)
           * (3602879701896397 / 2 ^ 55 / real (nuc_A ex_nuc 1))"
    by (simp add: cx_decay_def ex_nuc_def)
  ultimately show ?thesis using ex_init by blast
qed

end
